theory Spec2Isabelle
  imports Main
begin

section \<open>JavaScript strings and numbers\<close>

text \<open>
  A JavaScript string is modelled as a \<open>string\<close>, a list of characters. The code looks
  at characters only through \<open>\d\<close>, the class of the ten ASCII digits, its complement
  \<open>\D\<close>, and equality with literals, so nothing depends on how wide a character is.
\<close>

definition isDigit :: "char \<Rightarrow> bool" where
  "isDigit c \<longleftrightarrow> c \<in> set ''0123456789''"

definition isDigit19 :: "char \<Rightarrow> bool" where
  "isDigit19 c \<longleftrightarrow> c \<in> set ''123456789''"

text \<open>\<open>s.replace(/\D/g, '')\<close>\<close>

definition stripNonDigits :: "string \<Rightarrow> string" where
  "stripNonDigits s = filter isDigit s"

text \<open>\<open>s.startsWith(p)\<close>\<close>

definition startsWith :: "string \<Rightarrow> string \<Rightarrow> bool" where
  "startsWith s p \<longleftrightarrow> take (length p) s = p"

text \<open>\<open>s.substring(n)\<close> for a non-negative literal \<open>n\<close>\<close>

definition substring :: "string \<Rightarrow> nat \<Rightarrow> string" where
  "substring s n = drop n s"

text \<open>\<open>s.slice(-n)\<close>: the last \<open>n\<close> characters (the whole string when it is shorter).\<close>

definition sliceLast :: "string \<Rightarrow> nat \<Rightarrow> string" where
  "sliceLast s n = drop (length s - n) s"

text \<open>\<open>Number.prototype.toString\<close> on integers: decimal digits, a minus sign when negative.\<close>

definition digitChar :: "nat \<Rightarrow> char" where
  "digitChar d = ''0123456789'' ! (d mod 10)"

function natToString :: "nat \<Rightarrow> string" where
  "natToString n = (if n < 10 then [digitChar n] else natToString (n div 10) @ [digitChar (n mod 10)])"
  by pat_completeness auto
termination
  by (relation "measure id") auto

definition intToString :: "int \<Rightarrow> string" where
  "intToString i = (if i < 0 then CHR ''-'' # natToString (nat (- i)) else natToString (nat i))"

section \<open>twilioService.ts: the OTP issuer, the verifier and the phone normalizer\<close>

text \<open>
  The file holds two versions of the service. The model is of the first one, the
  browser-safe mock that keeps the codes in \<open>otpStore\<close>; it is the one that
  \<open>realAuthService.ts\<close> is written against.
\<close>

datatype OTPStatus = Pending | Approved | Cancelled | Failed

record OTPVerificationResult =
  vstatus :: OTPStatus
  valid :: bool
  vsid :: "string option"
  verrorMessage :: "string option"

record OTPSendResult =
  sstatus :: OTPStatus
  ssid :: "string option"
  serrorMessage :: "string option"

record OTPEntry =
  code :: string
  expiresAt :: int

type_synonym otpStore = "string \<rightharpoonup> OTPEntry"

text \<open>The body \<open>[1-9]\d{1,14}$\<close> shared by the two phone regular expressions.\<close>

definition matchE164Body :: "string \<Rightarrow> bool" where
  "matchE164Body s =
     (case s of
        [] \<Rightarrow> False
      | d # rest \<Rightarrow> isDigit19 d \<and> 1 \<le> length rest \<and> length rest \<le> 14 \<and> list_all isDigit rest)"

text \<open>\<open>isValidPhoneNumber\<close>: \<open>/^\+[1-9]\d{1,14}$/.test(phoneNumber)\<close>\<close>

definition isValidPhoneNumber :: "string \<Rightarrow> bool" where
  "isValidPhoneNumber phoneNumber =
     (case phoneNumber of
        [] \<Rightarrow> False
      | c # rest \<Rightarrow> c = CHR ''+'' \<and> matchE164Body rest)"

text \<open>\<open>formatPhoneNumber\<close>; \<open>null\<close> is \<open>None\<close>.\<close>

definition formatPhoneNumber :: "string \<Rightarrow> string option" where
  "formatPhoneNumber phoneNumber =
     (let cleaned = stripNonDigits phoneNumber in
      if length cleaned = 10 \<and> startsWith cleaned ''6789'' then Some (''+91'' @ cleaned)
      else if length cleaned = 12 \<and> startsWith cleaned ''91'' then Some (''+'' @ cleaned)
      else if length cleaned = 13 \<and> startsWith cleaned ''091'' then Some (''+'' @ substring cleaned 1)
      else None)"

text \<open>
  \<open>TwilioService.sendOTP\<close>. The environment is passed in: \<open>otpDraw\<close> is the value of
  \<open>Math.floor(100000 + Math.random() * 900000)\<close>, a number from 100000 to 999999 (the
  model takes any natural number), \<open>tExp\<close> and \<open>tSid\<close> are the two readings of
  \<open>Date.now()\<close>. The thrown \<open>Error\<close> is caught in the same function and becomes the
  \<open>failed\<close> result.
\<close>

definition twilio_sendOTP ::
  "nat \<Rightarrow> int \<Rightarrow> int \<Rightarrow> otpStore \<Rightarrow> string \<Rightarrow> OTPSendResult \<times> otpStore" where
  "twilio_sendOTP otpDraw tExp tSid store phoneNumber =
     (if \<not> isValidPhoneNumber phoneNumber then
        (\<lparr>sstatus = Failed, ssid = None, serrorMessage = Some ''Invalid phone number format''\<rparr>, store)
      else
        (\<lparr>sstatus = Pending, ssid = Some (''demo_verification_'' @ intToString tSid),
          serrorMessage = None\<rparr>,
         store(phoneNumber \<mapsto> \<lparr>code = natToString otpDraw, expiresAt = tExp + 5 * 60 * 1000\<rparr>)))"

text \<open>
  \<open>TwilioService.verifyOTP\<close>; \<open>tNow\<close> is the reading of \<open>Date.now()\<close> in the expiry test,
  \<open>tSid\<close> the one in the approval's \<open>sid\<close>.
\<close>

definition twilio_verifyOTP ::
  "int \<Rightarrow> int \<Rightarrow> otpStore \<Rightarrow> string \<Rightarrow> string \<Rightarrow> OTPVerificationResult \<times> otpStore" where
  "twilio_verifyOTP tNow tSid store phoneNumber otp =
     (case store phoneNumber of
        None \<Rightarrow>
          (\<lparr>vstatus = Failed, valid = False, vsid = None,
            verrorMessage = Some ''OTP session expired. Please request a new OTP.''\<rparr>,
           store(phoneNumber := None))
      | Some session \<Rightarrow>
          if tNow > expiresAt session then
            (\<lparr>vstatus = Failed, valid = False, vsid = None,
              verrorMessage = Some ''OTP session expired. Please request a new OTP.''\<rparr>,
             store(phoneNumber := None))
          else if code session \<noteq> otp then
            (\<lparr>vstatus = Failed, valid = False, vsid = None, verrorMessage = Some ''Invalid OTP''\<rparr>,
             store)
          else
            (\<lparr>vstatus = Approved, valid = True,
              vsid = Some (''demo_verification_check_'' @ intToString tSid), verrorMessage = None\<rparr>,
             store(phoneNumber := None)))"

section \<open>The JavaScript runtime used by the persistence adapter\<close>

text \<open>
  \<open>saveUsersToStorage\<close> and \<open>loadUsersFromStorage\<close> are a few lines over \<open>JSON\<close>, \<open>Object\<close>
  and \<open>Date\<close>. These belong to the JavaScript runtime, not to the repository; this
  section models the part of them that the two functions use, after ECMAScript.

  What \<open>JSON.stringify\<close> writes and \<open>JSON.parse\<close> reads back is modelled as the JSON value
  itself, not as its text. An object is the list of its properties in enumeration order.
\<close>

datatype json =
    JNull
  | JBool bool
  | JNumber int
  | JString string
  | JArray "json list"
  | JObject "(string \<times> json) list"

subsection \<open>\<open>Date\<close>: time values, \<open>toISOString\<close> and \<open>Date.parse\<close>\<close>

text \<open>
  A valid \<open>Date\<close> is its time value, the milliseconds since the epoch, at most
  \<open>8.64e15\<close> in magnitude. The calendar functions follow ECMAScript's proleptic
  Gregorian calendar in UTC: \<open>civilFromDays\<close> gives year, month (1 to 12) and day of the
  month of a day number, \<open>daysFromCivil\<close> is \<open>MakeDay\<close>. Both count in 400-year eras
  of 146097 days that start on 1 March: \<open>doe\<close> is the day of the era, split into
  centuries of 36524 days, four-year cycles of 1461 days and years of 365 days, \<open>yoe\<close>
  the year of the era, \<open>doy\<close> the day of the year from 1 March, \<open>mp\<close> the month from March.
\<close>

definition validTime :: "int \<Rightarrow> bool" where
  "validTime t \<longleftrightarrow> - 8640000000000000 \<le> t \<and> t \<le> 8640000000000000"

definition civilFromDays :: "int \<Rightarrow> int \<times> int \<times> int" where
  "civilFromDays z0 =
     (let z = z0 + 719468;
          era = z div 146097;
          doe = z mod 146097;
          c = min 3 (doe div 36524);
          r = doe - 36524 * c;
          q = min 24 (r div 1461);
          s = r - 1461 * q;
          k = min 3 (s div 365);
          doy = s - 365 * k;
          yoe = 100 * c + 4 * q + k;
          y = yoe + era * 400;
          mp = (5 * doy + 2) div 153;
          d = doy - (153 * mp + 2) div 5 + 1;
          m = (if mp < 10 then mp + 3 else mp - 9)
      in (if m \<le> 2 then y + 1 else y, m, d))"

definition daysFromCivil :: "int \<Rightarrow> int \<Rightarrow> int \<Rightarrow> int" where
  "daysFromCivil y0 m d =
     (let y = (if m \<le> 2 then y0 - 1 else y0);
          era = y div 400;
          yoe = y mod 400;
          mp = (if m > 2 then m - 3 else m + 9);
          doy = (153 * mp + 2) div 5 + d - 1;
          doe = yoe * 365 + yoe div 4 - yoe div 100 + doy
      in era * 146097 + doe - 719468)"

text \<open>\<open>padDigits w n\<close>: the last \<open>w\<close> decimal digits of \<open>n\<close>, zero-padded.\<close>

fun padDigits :: "nat \<Rightarrow> nat \<Rightarrow> string" where
  "padDigits 0 n = []"
| "padDigits (Suc w) n = padDigits w (n div 10) @ [digitChar (n mod 10)]"

definition digitVal :: "char \<Rightarrow> nat" where
  "digitVal c = of_char c - 48"

definition parseDigits :: "string \<Rightarrow> nat option" where
  "parseDigits s =
     (if s \<noteq> [] \<and> list_all isDigit s then Some (foldl (\<lambda>a c. 10 * a + digitVal c) 0 s)
      else None)"

definition yearString :: "int \<Rightarrow> string" where
  "yearString y =
     (if 0 \<le> y \<and> y \<le> 9999 then padDigits 4 (nat y)
      else if y < 0 then CHR ''-'' # padDigits 6 (nat (- y))
      else CHR ''+'' # padDigits 6 (nat y))"

text \<open>\<open>Date.prototype.toISOString\<close> (and so \<open>toJSON\<close>) of a valid time value.\<close>

definition toISOString :: "int \<Rightarrow> string" where
  "toISOString t =
     (let (y, m, d) = civilFromDays (t div 86400000);
          ms = t mod 86400000
      in yearString y @ ''-'' @ padDigits 2 (nat m) @ ''-'' @ padDigits 2 (nat d) @ ''T''
         @ padDigits 2 (nat (ms div 3600000)) @ '':''
         @ padDigits 2 (nat (ms div 60000 mod 60)) @ '':''
         @ padDigits 2 (nat (ms div 1000 mod 60)) @ ''.''
         @ padDigits 3 (nat (ms mod 1000)) @ ''Z'')"

text \<open>The year of a date-time string: four digits, or a sign and six digits
  (\<open>-000000\<close> is not a year).\<close>

definition parseYear :: "string \<Rightarrow> (int \<times> string) option" where
  "parseYear s =
     (case s of
        [] \<Rightarrow> None
      | c # r \<Rightarrow>
          if c = CHR ''+'' \<or> c = CHR ''-'' then
            (if length r < 6 then None
             else case parseDigits (take 6 r) of
                    None \<Rightarrow> None
                  | Some n \<Rightarrow>
                      if c = CHR ''-'' then (if n = 0 then None else Some (- int n, drop 6 r))
                      else Some (int n, drop 6 r))
          else if length s < 4 then None
          else map_option (\<lambda>n. (int n, drop 4 s)) (parseDigits (take 4 s)))"

text \<open>
  \<open>Date.parse\<close> on the date-time format \<open>YYYY-MM-DDTHH:mm:ss.sssZ\<close> (with the expanded
  year), which is what \<open>toISOString\<close> emits; \<open>None\<close> is \<open>NaN\<close>. The other formats that
  \<open>Date.parse\<close> accepts are left out: they give \<open>None\<close> here. A day from 29 to 31 is
  taken in every month and carried over by \<open>MakeDay\<close>; \<open>toISOString\<close> never writes
  such a day for a month that lacks it.
\<close>

definition dateParse :: "string \<Rightarrow> int option" where
  "dateParse s =
     (case parseYear s of
        None \<Rightarrow> None
      | Some (y, r) \<Rightarrow>
          if length r = 20 \<and> r ! 0 = CHR ''-'' \<and> r ! 3 = CHR ''-'' \<and> r ! 6 = CHR ''T''
             \<and> r ! 9 = CHR '':'' \<and> r ! 12 = CHR '':'' \<and> r ! 15 = CHR ''.'' \<and> r ! 19 = CHR ''Z''
          then
            (case (parseDigits (take 2 (drop 1 r)), parseDigits (take 2 (drop 4 r)),
                   parseDigits (take 2 (drop 7 r)), parseDigits (take 2 (drop 10 r)),
                   parseDigits (take 2 (drop 13 r)), parseDigits (take 3 (drop 16 r))) of
               (Some mo, Some dd, Some hh, Some mi, Some ss, Some ms) \<Rightarrow>
                 if 1 \<le> mo \<and> mo \<le> 12 \<and> 1 \<le> dd \<and> dd \<le> 31 \<and> hh \<le> 23 \<and> mi \<le> 59 \<and> ss \<le> 59 then
                   (let t = daysFromCivil y (int mo) (int dd) * 86400000
                            + int hh * 3600000 + int mi * 60000 + int ss * 1000 + int ms
                    in if validTime t then Some t else None)
                 else None
             | _ \<Rightarrow> None)
          else None)"

section \<open>realAuthService.ts: the data model\<close>

datatype UserType = Patient | Asha | Doctor | Admin

text \<open>
  Modelled from the spec: \<open>ABHAProfile\<close> is declared in \<open>abhaService.ts\<close>, which is not
  among the sources; the spec calls it an opaque external record. It is represented by
  the JSON value it is stored as.
\<close>

type_synonym ABHAProfile = json

record User =
  id' :: string
  name :: string
  email :: "string option"
  phone :: string
  userType :: UserType
  profilePhoto :: "string option"
  isVerified :: bool
  abhaProfile :: "ABHAProfile option"
  specialty :: "string option"
  village :: "string option"
  organization :: "string option"
  createdAt :: int
  lastLogin :: int

record AuthResult =
  success :: bool
  user :: "User option"
  error :: "string option"
  requiresOTP :: "bool option"
  otpSent :: "bool option"

record UserRegistration =
  regName :: string
  regEmail :: "string option"
  regPhone :: string
  regUserType :: UserType
  regSpecialty :: "string option"
  regVillage :: "string option"
  regOrganization :: "string option"

record OTPSession =
  sessionPhone :: string
  timestamp :: int

text \<open>
  The state of the two singletons: the \<open>otpStore\<close> of \<open>twilioService\<close>, the three maps of
  \<open>authService\<close> and the \<open>easymed_users\<close> item of \<open>localStorage\<close>. \<open>users\<close> is a JavaScript
  \<open>Map\<close>, iterated in insertion order by \<open>findUserByPhone\<close> and \<open>findUserByEmail\<close>, so it
  is the list of its entries.
\<close>

record AuthState =
  otpStore :: otpStore
  users :: "(string \<times> User) list"
  pendingRegistrations :: "string \<rightharpoonup> UserRegistration"
  otpSessions :: "string \<rightharpoonup> OTPSession"
  localStorage :: "json option"

text \<open>\<open>Map.prototype.set\<close>: an existing key keeps its place, a new one goes to the end.\<close>

fun Map_set :: "string \<Rightarrow> 'v \<Rightarrow> (string \<times> 'v) list \<Rightarrow> (string \<times> 'v) list" where
  "Map_set k v [] = [(k, v)]"
| "Map_set k v (e # es) = (if fst e = k then (k, v) # es else e # Map_set k v es)"

text \<open>A field assignment on the first entry that satisfies \<open>P\<close>: the user objects are
  shared with the map, so \<open>user.lastLogin = ...\<close> changes the entry in place.\<close>

fun modifyFirst ::
  "(string \<times> User \<Rightarrow> bool) \<Rightarrow> (User \<Rightarrow> User) \<Rightarrow> (string \<times> User) list \<Rightarrow> (string \<times> User) list" where
  "modifyFirst P f [] = []"
| "modifyFirst P f (e # es) = (if P e then (fst e, f (snd e)) # es else e # modifyFirst P f es)"

definition findUserByPhone :: "(string \<times> User) list \<Rightarrow> string \<Rightarrow> User option" where
  "findUserByPhone us p = map_option snd (find (\<lambda>e. phone (snd e) = p) us)"

definition findUserByEmail :: "(string \<times> User) list \<Rightarrow> string \<Rightarrow> User option" where
  "findUserByEmail us e = map_option snd (find (\<lambda>x. email (snd x) = Some e) us)"

section \<open>The persistence adapter\<close>

definition userTypeString :: "UserType \<Rightarrow> string" where
  "userTypeString t =
     (case t of Patient \<Rightarrow> ''patient'' | Asha \<Rightarrow> ''asha'' | Doctor \<Rightarrow> ''doctor'' | Admin \<Rightarrow> ''admin'')"

definition optField :: "string \<Rightarrow> json option \<Rightarrow> (string \<times> json) list" where
  "optField k v = (case v of None \<Rightarrow> [] | Some j \<Rightarrow> [(k, j)])"

text \<open>
  \<open>JSON.stringify\<close> of one user object: a property whose value is \<open>undefined\<close> is left
  out, a \<open>Date\<close> is written through \<open>toJSON\<close>, that is \<open>toISOString\<close>.
\<close>

definition userFields :: "User \<Rightarrow> (string \<times> json) list" where
  "userFields u =
     [(''id'', JString (id' u)), (''name'', JString (name u))]
     @ optField ''email'' (map_option JString (email u))
     @ [(''phone'', JString (phone u)), (''userType'', JString (userTypeString (userType u)))]
     @ optField ''specialty'' (map_option JString (specialty u))
     @ optField ''village'' (map_option JString (village u))
     @ optField ''organization'' (map_option JString (organization u))
     @ [(''isVerified'', JBool (isVerified u)),
        (''createdAt'', JString (toISOString (createdAt u))),
        (''lastLogin'', JString (toISOString (lastLogin u)))]
     @ optField ''abhaProfile'' (abhaProfile u)
     @ optField ''profilePhoto'' (map_option JString (profilePhoto u))"

definition userToJSON :: "User \<Rightarrow> json" where
  "userToJSON u = JObject (userFields u)"

text \<open>
  The property order of an ordinary object: the keys that are array indices (canonical
  decimal numerals below \<open>2^32 - 1\<close>) first, in ascending order, then the other keys in
  insertion order. \<open>Object.fromEntries\<close> builds such an object from the map.
\<close>

definition arrayIndex :: "string \<Rightarrow> nat option" where
  "arrayIndex k =
     (case parseDigits k of
        None \<Rightarrow> None
      | Some n \<Rightarrow> if (length k = 1 \<or> hd k \<noteq> CHR ''0'') \<and> n < 4294967295 then Some n else None)"

definition isIndexKey :: "string \<times> 'v \<Rightarrow> bool" where
  "isIndexKey e \<longleftrightarrow> arrayIndex (fst e) \<noteq> None"

definition indexKey :: "string \<times> 'v \<Rightarrow> nat" where
  "indexKey e = (case arrayIndex (fst e) of None \<Rightarrow> 0 | Some n \<Rightarrow> n)"

definition propertyOrder :: "(string \<times> 'v) list \<Rightarrow> (string \<times> 'v) list" where
  "propertyOrder es = sort_key indexKey (filter isIndexKey es) @ filter (\<lambda>e. \<not> isIndexKey e) es"

text \<open>Defining the properties one after the other: a repeated key keeps its place and
  takes the later value.\<close>

fun setAll :: "(string \<times> 'v) list \<Rightarrow> (string \<times> 'v) list \<Rightarrow> (string \<times> 'v) list" where
  "setAll [] acc = acc"
| "setAll (e # es) acc = setAll es (Map_set (fst e) (snd e) acc)"

definition fromEntries :: "(string \<times> 'v) list \<Rightarrow> (string \<times> 'v) list" where
  "fromEntries es = propertyOrder (setAll es [])"

text \<open>\<open>saveUsersToStorage\<close>: the new content of the \<open>easymed_users\<close> item.\<close>

definition saveUsersToStorage :: "(string \<times> User) list \<Rightarrow> json" where
  "saveUsersToStorage us = JObject (map (\<lambda>e. (fst e, userToJSON (snd e))) (fromEntries us))"

text \<open>
  \<open>new Date(v)\<close> for a stored value and the typed view of a parsed user object. \<open>None\<close>
  stands for everything that is not a \<open>User\<close> with two valid dates written in the
  date-time format: such objects lie outside the \<open>User\<close> type.
\<close>

definition newDate :: "json option \<Rightarrow> int option" where
  "newDate v = (case v of Some (JString s) \<Rightarrow> dateParse s | _ \<Rightarrow> None)"

definition stringField :: "(string \<times> json) list \<Rightarrow> string \<Rightarrow> string option" where
  "stringField fs k = (case map_of fs k of Some (JString s) \<Rightarrow> Some s | _ \<Rightarrow> None)"

text \<open>An optional string property: absent, or a string.\<close>

definition optStringField :: "(string \<times> json) list \<Rightarrow> string \<Rightarrow> string option option" where
  "optStringField fs k =
     (case map_of fs k of None \<Rightarrow> Some None | Some (JString s) \<Rightarrow> Some (Some s) | _ \<Rightarrow> None)"

definition userTypeOfString :: "string \<Rightarrow> UserType option" where
  "userTypeOfString s =
     (if s = ''patient'' then Some Patient else if s = ''asha'' then Some Asha
      else if s = ''doctor'' then Some Doctor else if s = ''admin'' then Some Admin else None)"

definition userFromJSON :: "json \<Rightarrow> User option" where
  "userFromJSON j =
     (case j of
        JObject fs \<Rightarrow>
          (case (stringField fs ''id'', stringField fs ''name'', optStringField fs ''email'',
                 stringField fs ''phone'', Option.bind (stringField fs ''userType'') userTypeOfString,
                 optStringField fs ''profilePhoto'', map_of fs ''isVerified'',
                 optStringField fs ''specialty'', optStringField fs ''village'',
                 optStringField fs ''organization'',
                 newDate (map_of fs ''createdAt''), newDate (map_of fs ''lastLogin'')) of
             (Some i, Some n, Some e, Some p, Some t, Some ph, Some (JBool v), Some sp, Some vi,
              Some og, Some c, Some l) \<Rightarrow>
               Some \<lparr>id' = i, name = n, email = e, phone = p, userType = t, profilePhoto = ph,
                     isVerified = v, abhaProfile = map_of fs ''abhaProfile'', specialty = sp,
                     village = vi, organization = og, createdAt = c, lastLogin = l\<rparr>
           | _ \<Rightarrow> None)
      | _ \<Rightarrow> None)"

fun loadEntries :: "(string \<times> json) list \<Rightarrow> (string \<times> User) list \<Rightarrow> (string \<times> User) list option" where
  "loadEntries [] acc = Some acc"
| "loadEntries (e # es) acc =
     (case userFromJSON (snd e) of
        None \<Rightarrow> None
      | Some u \<Rightarrow> loadEntries es (Map_set (fst e) u acc))"

text \<open>
  \<open>loadUsersFromStorage\<close>, run by the constructor on the empty map: the map it leaves.
  A missing item leaves the map empty.
\<close>

definition loadUsersFromStorage :: "json option \<Rightarrow> (string \<times> User) list option" where
  "loadUsersFromStorage stored =
     (case stored of
        None \<Rightarrow> Some []
      | Some (JObject es) \<Rightarrow> loadEntries (fromEntries es) []
      | Some _ \<Rightarrow> None)"

section \<open>realAuthService.ts: the operations\<close>

definition failure :: "string \<Rightarrow> AuthResult" where
  "failure msg = \<lparr>success = False, user = None, error = Some msg, requiresOTP = None, otpSent = None\<rparr>"

text \<open>\<open>m || d\<close> for an optional string: \<open>undefined\<close> and the empty string are falsy.\<close>

definition orElse :: "string option \<Rightarrow> string \<Rightarrow> string" where
  "orElse m d = (case m of None \<Rightarrow> d | Some s \<Rightarrow> if s = [] then d else s)"

text \<open>The readings of the environment during one \<open>sendOTP\<close>: the random draw and the
  clock in \<open>twilioService.sendOTP\<close>, then the clock when the session is stored.\<close>

record SendEnv =
  otpDraw :: nat
  expiryClock :: int
  sidClock :: int
  sessionClock :: int

text \<open>The readings during one \<open>createUser\<close>: the clock and
  \<open>Math.random().toString(36).substring(2, 15)\<close> in the id, then the two \<open>new Date()\<close>.\<close>

record CreateEnv =
  idClock :: int
  idRandom :: string
  createdClock :: int
  firstLoginClock :: int

text \<open>The readings during one \<open>verifyOTPAndLogin\<close>.\<close>

record VerifyEnv =
  timeoutClock :: int
  verifyClock :: int
  verifySidClock :: int
  createEnv :: CreateEnv
  loginClock :: int

definition auth_sendOTP :: "SendEnv \<Rightarrow> AuthState \<Rightarrow> string \<Rightarrow> AuthResult \<times> AuthState" where
  "auth_sendOTP env st phoneNumber =
     (case formatPhoneNumber phoneNumber of
        None \<Rightarrow> (failure ''Invalid phone number format'', st)
      | Some formattedPhone \<Rightarrow>
          (let (result, store') =
                 twilio_sendOTP (otpDraw env) (expiryClock env) (sidClock env) (otpStore st) formattedPhone
           in if sstatus result = Pending then
                (\<lparr>success = True, user = None, error = None, requiresOTP = Some True,
                  otpSent = Some True\<rparr>,
                 st\<lparr>otpStore := store',
                    otpSessions := (otpSessions st)(formattedPhone \<mapsto>
                      \<lparr>sessionPhone = formattedPhone, timestamp = sessionClock env\<rparr>)\<rparr>)
              else
                (failure (orElse (serrorMessage result) ''Failed to send OTP''),
                 st\<lparr>otpStore := store'\<rparr>)))"

definition createUser :: "CreateEnv \<Rightarrow> AuthState \<Rightarrow> UserRegistration \<Rightarrow> User \<times> AuthState" where
  "createUser env st registration =
     (let userId = ''user_'' @ intToString (idClock env) @ ''_'' @ idRandom env;
          u = \<lparr>id' = userId, name = regName registration, email = regEmail registration,
               phone = regPhone registration, userType = regUserType registration,
               profilePhoto = None, isVerified = False, abhaProfile = None,
               specialty = regSpecialty registration, village = regVillage registration,
               organization = regOrganization registration,
               createdAt = createdClock env, lastLogin = firstLoginClock env\<rparr>;
          us = Map_set userId u (users st)
      in (u, st\<lparr>users := us, localStorage := Some (saveUsersToStorage us)\<rparr>))"

text \<open>\<open>user.lastLogin = new Date(); this.saveUsersToStorage()\<close> for the user object
  selected by \<open>P\<close>.\<close>

definition touchLastLogin :: "(string \<times> User \<Rightarrow> bool) \<Rightarrow> int \<Rightarrow> AuthState \<Rightarrow> AuthState" where
  "touchLastLogin P t st =
     (let us = modifyFirst P (\<lambda>u. u\<lparr>lastLogin := t\<rparr>) (users st)
      in st\<lparr>users := us, localStorage := Some (saveUsersToStorage us)\<rparr>)"

text \<open>The tail of \<open>verifyOTPAndLogin\<close>, run once the code is approved: drop the session,
  find or create the user, touch \<open>lastLogin\<close>, save.\<close>

definition completeLogin :: "VerifyEnv \<Rightarrow> AuthState \<Rightarrow> string \<Rightarrow> AuthResult \<times> AuthState" where
  "completeLogin env st1 formattedPhone =
     (let st2 = st1\<lparr>otpSessions := (otpSessions st1)(formattedPhone := None)\<rparr>
      in case findUserByPhone (users st2) formattedPhone of
           Some u \<Rightarrow>
             (\<lparr>success = True, user = Some (u\<lparr>lastLogin := loginClock env\<rparr>),
               error = None, requiresOTP = None, otpSent = None\<rparr>,
              touchLastLogin (\<lambda>e. phone (snd e) = formattedPhone) (loginClock env) st2)
         | None \<Rightarrow>
             (let (u, st3) =
                    (case pendingRegistrations st2 formattedPhone of
                       Some pendingReg \<Rightarrow>
                         (let (u, s) = createUser (createEnv env) st2 pendingReg
                          in (u, s\<lparr>pendingRegistrations :=
                                    (pendingRegistrations s)(formattedPhone := None)\<rparr>))
                     | None \<Rightarrow>
                         createUser (createEnv env) st2
                           \<lparr>regName = ''User '' @ sliceLast formattedPhone 4,
                            regEmail = None, regPhone = formattedPhone,
                            regUserType = Patient, regSpecialty = None,
                            regVillage = None, regOrganization = None\<rparr>)
              in (\<lparr>success = True, user = Some (u\<lparr>lastLogin := loginClock env\<rparr>),
                   error = None, requiresOTP = None, otpSent = None\<rparr>,
                  touchLastLogin (\<lambda>e. fst e = id' u) (loginClock env) st3)))"

definition verifyOTPAndLogin ::
  "VerifyEnv \<Rightarrow> AuthState \<Rightarrow> string \<Rightarrow> string \<Rightarrow> AuthResult \<times> AuthState" where
  "verifyOTPAndLogin env st phoneNumber otp =
     (case formatPhoneNumber phoneNumber of
        None \<Rightarrow> (failure ''Invalid phone number format'', st)
      | Some formattedPhone \<Rightarrow>
          (case otpSessions st formattedPhone of
             None \<Rightarrow> (failure ''No OTP session found. Please request a new OTP.'', st)
           | Some session \<Rightarrow>
               if timeoutClock env - timestamp session > 5 * 60 * 1000 then
                 (failure ''OTP session expired. Please request a new OTP.'',
                  st\<lparr>otpSessions := (otpSessions st)(formattedPhone := None)\<rparr>)
               else
                 (let (verificationResult, store') =
                        twilio_verifyOTP (verifyClock env) (verifySidClock env) (otpStore st)
                          formattedPhone otp;
                      st1 = st\<lparr>otpStore := store'\<rparr>
                  in if \<not> valid verificationResult then
                       (failure (orElse (verrorMessage verificationResult) ''Invalid OTP''), st1)
                     else completeLogin env st1 formattedPhone)))"

definition registerUser :: "SendEnv \<Rightarrow> AuthState \<Rightarrow> UserRegistration \<Rightarrow> AuthResult \<times> AuthState" where
  "registerUser env st registration =
     (case formatPhoneNumber (regPhone registration) of
        None \<Rightarrow> (failure ''Invalid phone number format'', st)
      | Some formattedPhone \<Rightarrow>
          if findUserByPhone (users st) formattedPhone \<noteq> None then
            (failure ''User already exists with this phone number'', st)
          else
            auth_sendOTP env
              (st\<lparr>pendingRegistrations := (pendingRegistrations st)(formattedPhone \<mapsto>
                    registration\<lparr>regPhone := formattedPhone\<rparr>)\<rparr>)
              formattedPhone)"

text \<open>\<open>/^\+?[1-9]\d{1,14}$/.test(s)\<close>\<close>

definition testAdminPhone :: "string \<Rightarrow> bool" where
  "testAdminPhone s =
     (case s of
        [] \<Rightarrow> False
      | c # rest \<Rightarrow> (c = CHR ''+'' \<and> matchE164Body rest) \<or> matchE164Body s)"

definition adminPhones :: "string list" where
  "adminPhones = [''+919060328119'']"

definition adminEmails :: "string list" where
  "adminEmails = [''praveen@stellaronehealth.com'', ''admin@easymed.in'', ''admin@gmail.com'']"

definition adminPasswords :: "string list" where
  "adminPasswords = [''dummy123'', ''admin123'', ''easymed2025'']"

text \<open>The readings during one \<open>authenticateAdmin\<close>: those of \<open>sendOTP\<close> on the phone
  branch, those of \<open>createUser\<close> and the final \<open>new Date()\<close> on the email branch.\<close>

record AdminEnv =
  adminSendEnv :: SendEnv
  adminCreateEnv :: CreateEnv
  adminLoginClock :: int

text \<open>The two blocks of the \<open>if\<close> in \<open>authenticateAdmin\<close>: the phone branch, which reads
  neither the password nor the e-mail lists, and the e-mail branch.\<close>

definition adminPhoneBranch :: "AdminEnv \<Rightarrow> AuthState \<Rightarrow> string \<Rightarrow> AuthResult \<times> AuthState" where
  "adminPhoneBranch env st identifier =
     (case formatPhoneNumber identifier of
        None \<Rightarrow> (failure ''Invalid phone number format'', st)
      | Some formattedPhone \<Rightarrow>
          if formattedPhone \<notin> set adminPhones then
            (failure ''Access denied. Contact system administrator.'', st)
          else auth_sendOTP (adminSendEnv env) st formattedPhone)"

text \<open>The registration that the e-mail branch passes to \<open>createUser\<close>.\<close>

definition adminRegistration :: "string \<Rightarrow> UserRegistration" where
  "adminRegistration identifier =
     \<lparr>regName = (if identifier = ''praveen@stellaronehealth.com''
                  then ''Praveen - StellarOne Health'' else ''Admin User''),
      regEmail = Some identifier, regPhone = ''+919060328119'',
      regUserType = Admin, regSpecialty = None, regVillage = None,
      regOrganization = Some (if identifier = ''praveen@stellaronehealth.com''
                              then ''StellarOne Health'' else ''EasyMed'')\<rparr>"

definition adminEmailBranch ::
  "AdminEnv \<Rightarrow> AuthState \<Rightarrow> string \<Rightarrow> string option \<Rightarrow> AuthResult \<times> AuthState" where
  "adminEmailBranch env st identifier password =
     (if identifier \<notin> set adminEmails then
        (failure ''Access denied. Contact system administrator.'', st)
      else if (case password of None \<Rightarrow> True | Some pw \<Rightarrow> pw = [] \<or> pw \<notin> set adminPasswords) then
        (failure ''Invalid password'', st)
      else
        (case findUserByEmail (users st) identifier of
           Some adminUser \<Rightarrow>
             (\<lparr>success = True, user = Some (adminUser\<lparr>lastLogin := adminLoginClock env\<rparr>),
               error = None, requiresOTP = None, otpSent = None\<rparr>,
              touchLastLogin (\<lambda>e. email (snd e) = Some identifier) (adminLoginClock env) st)
         | None \<Rightarrow>
             (let (adminUser, st1) = createUser (adminCreateEnv env) st (adminRegistration identifier)
              in (\<lparr>success = True, user = Some (adminUser\<lparr>lastLogin := adminLoginClock env\<rparr>),
                   error = None, requiresOTP = None, otpSent = None\<rparr>,
                  touchLastLogin (\<lambda>e. fst e = id' adminUser) (adminLoginClock env) st1))))"

definition authenticateAdmin ::
  "AdminEnv \<Rightarrow> AuthState \<Rightarrow> string \<Rightarrow> string option \<Rightarrow> AuthResult \<times> AuthState" where
  "authenticateAdmin env st identifier password =
     (if testAdminPhone (stripNonDigits identifier) then adminPhoneBranch env st identifier
      else adminEmailBranch env st identifier password)"

text \<open>The state of a fresh page: empty maps, nothing stored.\<close>

definition initialState :: AuthState where
  "initialState =
     \<lparr>otpStore = Map.empty, users = [], pendingRegistrations = Map.empty,
      otpSessions = Map.empty, localStorage = None\<rparr>"

section \<open>Predicates of the specification\<close>

text \<open>The routing condition in the words of the specification: between 2 and 15 digits
  are left, and the first of them is not \<open>0\<close>.\<close>

definition looksLikePhone :: "string \<Rightarrow> bool" where
  "looksLikePhone identifier =
     (let ds = stripNonDigits identifier
      in 2 \<le> length ds \<and> length ds \<le> 15 \<and> ds \<noteq> [] \<and> isDigit19 (hd ds))"

text \<open>The canonical shape in the words of the specification: a leading \<open>+\<close>, then digits
  only, the first of them from 1 to 9, at most 15 in all.\<close>

definition e164Shape :: "string \<Rightarrow> bool" where
  "e164Shape p =
     (case p of
        [] \<Rightarrow> False
      | c # ds \<Rightarrow> c = CHR ''+'' \<and> ds \<noteq> [] \<and> list_all isDigit ds \<and> isDigit19 (hd ds)
                 \<and> length ds \<le> 15)"

text \<open>Every phone number kept anywhere in the state is in canonical form: the keys of
  the three phone-indexed maps, the phone of each pending registration and of each user.\<close>

definition phonesCanonical :: "AuthState \<Rightarrow> bool" where
  "phonesCanonical st \<longleftrightarrow>
     (\<forall>p r. otpStore st p = Some r \<longrightarrow> isValidPhoneNumber p)
   \<and> (\<forall>p r. otpSessions st p = Some r \<longrightarrow> isValidPhoneNumber p)
   \<and> (\<forall>p r. pendingRegistrations st p = Some r \<longrightarrow> isValidPhoneNumber p \<and> regPhone r = p)
   \<and> (\<forall>e \<in> set (users st). isValidPhoneNumber (phone (snd e)))"


text \<open>Every date of the directory is a valid time value.\<close>

definition datesValid :: "(string \<times> User) list \<Rightarrow> bool" where
  "datesValid us \<longleftrightarrow> (\<forall>e \<in> set us. validTime (createdAt (snd e)) \<and> validTime (lastLogin (snd e)))"

declare natToString.simps [simp del]

section \<open>Concrete scenarios\<close>

text \<open>Readings of the environment used to run the operations on concrete inputs.\<close>

definition demoSendEnv :: SendEnv where
  "demoSendEnv = \<lparr>otpDraw = 123456, expiryClock = 1000, sidClock = 1000, sessionClock = 1001\<rparr>"

definition demoCreateEnv :: CreateEnv where
  "demoCreateEnv = \<lparr>idClock = 5000, idRandom = ''k3j9x2m1q0z'', createdClock = 5000, firstLoginClock = 5000\<rparr>"

definition demoVerifyEnv :: VerifyEnv where
  "demoVerifyEnv = \<lparr>timeoutClock = 4000, verifyClock = 4001, verifySidClock = 4002,
     createEnv = demoCreateEnv, loginClock = 5001\<rparr>"

definition demoAdminEnv :: AdminEnv where
  "demoAdminEnv = \<lparr>adminSendEnv = demoSendEnv, adminCreateEnv = demoCreateEnv, adminLoginClock = 6000\<rparr>"


definition demoUsers :: "(string \<times> User) list" where
  "demoUsers =
     [(''user_1730550000123_k3j9x2m1q0z'',
       \<lparr>id' = ''user_1730550000123_k3j9x2m1q0z'', name = ''User 3210'', email = None,
        phone = ''+919876543210'', userType = Patient, profilePhoto = None, isVerified = False,
        abhaProfile = None, specialty = None, village = None, organization = None,
        createdAt = 1730550000123, lastLogin = 1730550000456\<rparr>),
      (''user_1730550900000_z8y7x6w5v4u'',
       \<lparr>id' = ''user_1730550900000_z8y7x6w5v4u'', name = ''Admin User'',
        email = Some ''admin@easymed.in'', phone = ''+919060328119'', userType = Admin,
        profilePhoto = None, isVerified = False, abhaProfile = None, specialty = None,
        village = None, organization = Some ''EasyMed'',
        createdAt = 1730550900000, lastLogin = 1730550900001\<rparr>)]"

section \<open>Properties\<close>

subsection \<open>The phone normalizer\<close>

lemma isDigit_plus [simp]: "\<not> isDigit CHR ''+''"
  by (simp add: isDigit_def)

lemma strip_is_digits: "list_all isDigit (stripNonDigits s)"
  by (simp add: stripNonDigits_def list_all_iff)

text \<open>The three accepted shapes, and the canonical result in each.\<close>

lemma formatPhoneNumber_Some_iff:
  "formatPhoneNumber raw = Some p \<longleftrightarrow>
     (let c = stripNonDigits raw in
        (length c = 10 \<and> startsWith c ''6789'' \<and> p = ''+91'' @ c)
      \<or> (length c = 12 \<and> startsWith c ''91'' \<and> p = ''+'' @ c)
      \<or> (length c = 13 \<and> startsWith c ''091'' \<and> p = ''+'' @ drop 1 c))"
  by (auto simp: formatPhoneNumber_def Let_def substring_def)

lemma formatPhoneNumber_canonical:
  assumes "formatPhoneNumber raw = Some p"
  shows "\<exists>ds. p = ''+91'' @ ds \<and> length ds = 10 \<and> list_all isDigit ds"
proof -
  let ?c = "stripNonDigits raw"
  have dig: "list_all isDigit ?c" by (rule strip_is_digits)
  from assms consider
      (a) "length ?c = 10" "p = ''+91'' @ ?c"
    | (b) "length ?c = 12" "startsWith ?c ''91''" "p = ''+'' @ ?c"
    | (c) "length ?c = 13" "startsWith ?c ''091''" "p = ''+'' @ drop 1 ?c"
    by (auto simp: formatPhoneNumber_Some_iff Let_def)
  then show ?thesis
  proof cases
    case a
    with dig show ?thesis by auto
  next
    case b
    then have "?c = ''91'' @ drop 2 ?c"
      by (metis append_take_drop_id startsWith_def length_Cons list.size(3) numeral_2_eq_2)
    moreover have "list_all isDigit (drop 2 ?c)"
      using dig by (simp add: list_all_iff in_set_dropD)
    ultimately show ?thesis using b by (intro exI[of _ "drop 2 ?c"]) auto
  next
    case c
    then have e: "?c = ''091'' @ drop 3 ?c"
      by (metis append_take_drop_id startsWith_def length_Cons list.size(3) numeral_3_eq_3)
    then have "drop 1 ?c = ''91'' @ drop 3 ?c"
      by (metis append_Cons drop0 drop_Suc_Cons One_nat_def)
    moreover have "list_all isDigit (drop 3 ?c)"
      using dig by (simp add: list_all_iff in_set_dropD)
    ultimately show ?thesis using c by (intro exI[of _ "drop 3 ?c"]) auto
  qed
qed

lemma formatPhoneNumber_of_canonical:
  assumes "length ds = 10" "list_all isDigit ds"
  shows "formatPhoneNumber (''+91'' @ ds) = Some (''+91'' @ ds)"
proof -
  have "stripNonDigits (''+91'' @ ds) = ''91'' @ ds"
    using assms by (simp add: stripNonDigits_def isDigit_def list_all_iff)
  then show ?thesis
    using assms by (simp add: formatPhoneNumber_def startsWith_def)
qed

lemma canonical_valid:
  assumes "length ds = 10" "list_all isDigit ds"
  shows "isValidPhoneNumber (''+91'' @ ds)"
  using assms by (simp add: isValidPhoneNumber_def matchE164Body_def isDigit19_def isDigit_def)

lemma formatPhoneNumber_valid: "formatPhoneNumber raw = Some p \<Longrightarrow> isValidPhoneNumber p"
  using formatPhoneNumber_canonical canonical_valid by blast

lemma digit19_digit: "isDigit19 c \<Longrightarrow> isDigit c"
  by (auto simp: isDigit19_def isDigit_def)

lemma valid_e164Shape: "isValidPhoneNumber p \<Longrightarrow> e164Shape p"
  by (auto simp: isValidPhoneNumber_def e164Shape_def matchE164Body_def digit19_digit
      split: list.splits)

lemma fmt_eval1: "formatPhoneNumber ''+91 98765-43210'' = Some ''+919876543210''"
  by (simp add: formatPhoneNumber_def stripNonDigits_def isDigit_def startsWith_def)

lemma fmt_eval2: "formatPhoneNumber ''9876543210'' = None"
  by (simp add: formatPhoneNumber_def stripNonDigits_def isDigit_def startsWith_def)

lemma fmt_eval3: "formatPhoneNumber ''easymed2025@example.com'' = None"
  by (simp add: formatPhoneNumber_def stripNonDigits_def isDigit_def startsWith_def)

lemma fmt_eval4: "formatPhoneNumber ''+919876543210'' = Some ''+919876543210''"
  by (simp add: formatPhoneNumber_def stripNonDigits_def isDigit_def startsWith_def)

lemma fmt_eval5: "formatPhoneNumber ''919876543210'' = Some ''+919876543210''"
  by (simp add: formatPhoneNumber_def stripNonDigits_def isDigit_def startsWith_def)

text \<open>
  Claim C7. Normalization is idempotent: whenever \<open>formatPhoneNumber\<close> accepts a raw input
  (one of the recognized 10, 12 or 13 digit forms), feeding the canonical string it
  returned back into \<open>formatPhoneNumber\<close> returns that string unchanged.
\<close>

theorem formatPhoneNumber_idempotent:
  "formatPhoneNumber raw = Some p \<Longrightarrow> formatPhoneNumber p = Some p"
  using formatPhoneNumber_canonical formatPhoneNumber_of_canonical by blast

theorem formatPhoneNumber_idempotent_witness:
  "formatPhoneNumber ''+91 98765-43210'' = Some ''+919876543210''
 \<and> formatPhoneNumber ''+919876543210'' = Some ''+919876543210''"
  using formatPhoneNumber_idempotent[of "''+91 98765-43210''" "''+919876543210''"] fmt_eval1
  by simp

subsection \<open>The OTP issuer and the verifier\<close>

lemma natToString_123456: "natToString 123456 = ''123456''"
  by (simp add: natToString.simps digitChar_def)

lemma send_valid:
  "isValidPhoneNumber pn \<Longrightarrow>
   twilio_sendOTP d e i store pn =
     (\<lparr>sstatus = Pending, ssid = Some (''demo_verification_'' @ intToString i), serrorMessage = None\<rparr>,
      store(pn \<mapsto> \<lparr>code = natToString d, expiresAt = e + 300000\<rparr>))"
  by (simp add: twilio_sendOTP_def)

lemma send_invalid:
  "\<not> isValidPhoneNumber pn \<Longrightarrow>
   twilio_sendOTP d e i store pn =
     (\<lparr>sstatus = Failed, ssid = None, serrorMessage = Some ''Invalid phone number format''\<rparr>, store)"
  by (simp add: twilio_sendOTP_def)

lemma verify_absent:
  "store pn = None \<Longrightarrow>
   twilio_verifyOTP t s store pn otp =
     (\<lparr>vstatus = Failed, valid = False, vsid = None,
       verrorMessage = Some ''OTP session expired. Please request a new OTP.''\<rparr>, store)"
  by (simp add: twilio_verifyOTP_def fun_upd_idem)

lemma verify_approved_iff:
  "vstatus (fst (twilio_verifyOTP t s store pn otp)) = Approved \<longleftrightarrow>
     (\<exists>e. store pn = Some e \<and> t \<le> expiresAt e \<and> code e = otp)"
  by (auto simp: twilio_verifyOTP_def split: option.splits)

lemma verify_approved_store:
  "vstatus (fst (twilio_verifyOTP t s store pn otp)) = Approved \<Longrightarrow>
   snd (twilio_verifyOTP t s store pn otp) = store(pn := None)"
  by (auto simp: twilio_verifyOTP_def split: option.splits if_splits)

lemma verify_valid_iff:
  "valid (fst (twilio_verifyOTP t s store pn otp)) \<longleftrightarrow>
     vstatus (fst (twilio_verifyOTP t s store pn otp)) = Approved"
  by (auto simp: twilio_verifyOTP_def split: option.splits)

lemma verify_store_le: "snd (twilio_verifyOTP t s store pn otp) \<subseteq>\<^sub>m store"
  by (auto simp: twilio_verifyOTP_def map_le_def split: option.splits if_splits)




text \<open>
  Claim C4, as stated, fails: \<open>verifyOTP\<close> tests \<open>!session || Date.now() > session.expiresAt\<close>
  in one condition, so a missing entry and an expired entry give the same result.
\<close>

theorem missing_and_expired_same_outcome_counterexample:
  "fst (twilio_verifyOTP 10 10 Map.empty ''+919876543210'' ''123456'')
     = fst (twilio_verifyOTP 10 10
              [''+919876543210'' \<mapsto> \<lparr>code = ''123456'', expiresAt = 5\<rparr>]
              ''+919876543210'' ''123456'')"
  by (simp add: twilio_verifyOTP_def)

text \<open>
  Claim C4, amended. When there is no entry for the phone, or there is one and the
  current time is past \<open>expiresAt\<close>, \<open>verifyOTP\<close> leaves no entry for the phone and
  returns one and the same failure (\<open>failed\<close>, not valid, "OTP session expired. Please
  request a new OTP."); every later verification for that phone returns that failure
  again and leaves the store as it is.
\<close>

theorem missing_or_expired_entry:
  assumes "store pn = None \<or> (\<exists>e. store pn = Some e \<and> t > expiresAt e)"
  shows "twilio_verifyOTP t s store pn otp =
           (\<lparr>vstatus = Failed, valid = False, vsid = None,
             verrorMessage = Some ''OTP session expired. Please request a new OTP.''\<rparr>,
            store(pn := None))
       \<and> (\<forall>t' s' otp'. twilio_verifyOTP t' s' (store(pn := None)) pn otp' =
           (\<lparr>vstatus = Failed, valid = False, vsid = None,
             verrorMessage = Some ''OTP session expired. Please request a new OTP.''\<rparr>,
            store(pn := None)))"
  using assms by (auto simp: twilio_verifyOTP_def)

theorem missing_or_expired_entry_witness:
  "twilio_verifyOTP 10 10 Map.empty ''+919876543210'' ''123456'' =
     (\<lparr>vstatus = Failed, valid = False, vsid = None,
       verrorMessage = Some ''OTP session expired. Please request a new OTP.''\<rparr>, Map.empty)
 \<and> twilio_verifyOTP 10 10 [''+919876543210'' \<mapsto> \<lparr>code = ''123456'', expiresAt = 5\<rparr>]
       ''+919876543210'' ''123456'' =
     (\<lparr>vstatus = Failed, valid = False, vsid = None,
       verrorMessage = Some ''OTP session expired. Please request a new OTP.''\<rparr>, Map.empty)
 \<and> twilio_verifyOTP 11 11 Map.empty ''+919876543210'' ''123456'' =
     (\<lparr>vstatus = Failed, valid = False, vsid = None,
       verrorMessage = Some ''OTP session expired. Please request a new OTP.''\<rparr>, Map.empty)"
  using missing_or_expired_entry[of Map.empty "''+919876543210''" 10 10 "''123456''"]
    missing_or_expired_entry[of "[''+919876543210'' \<mapsto> \<lparr>code = ''123456'', expiresAt = 5\<rparr>]"
       "''+919876543210''" 10 10 "''123456''"]
  by simp

subsection \<open>Sending a code and logging in\<close>

lemma touchLastLogin_frame [simp]:
  "otpStore (touchLastLogin P t st) = otpStore st"
  "otpSessions (touchLastLogin P t st) = otpSessions st"
  "pendingRegistrations (touchLastLogin P t st) = pendingRegistrations st"
  by (simp_all add: touchLastLogin_def Let_def)

lemma createUser_frame [simp]:
  "otpStore (snd (createUser env st reg)) = otpStore st"
  "otpSessions (snd (createUser env st reg)) = otpSessions st"
  "pendingRegistrations (snd (createUser env st reg)) = pendingRegistrations st"
  by (simp_all add: createUser_def Let_def)

lemma auth_sendOTP_formatted:
  "formatPhoneNumber raw = Some fp \<Longrightarrow>
   auth_sendOTP env st raw =
     (\<lparr>success = True, user = None, error = None, requiresOTP = Some True, otpSent = Some True\<rparr>,
      st\<lparr>otpStore := (otpStore st)(fp \<mapsto> \<lparr>code = natToString (otpDraw env),
                                         expiresAt = expiryClock env + 300000\<rparr>),
         otpSessions := (otpSessions st)(fp \<mapsto> \<lparr>sessionPhone = fp, timestamp = sessionClock env\<rparr>)\<rparr>)"
  by (simp add: auth_sendOTP_def send_valid formatPhoneNumber_valid)

lemma auth_sendOTP_rejected:
  "formatPhoneNumber raw = None \<Longrightarrow>
   auth_sendOTP env st raw = (failure ''Invalid phone number format'', st)"
  by (simp add: auth_sendOTP_def)

lemma verifyOTPAndLogin_rejected:
  "formatPhoneNumber raw = None \<Longrightarrow>
   verifyOTPAndLogin env st raw otp = (failure ''Invalid phone number format'', st)"
  by (simp add: verifyOTPAndLogin_def)

lemma registerUser_rejected:
  "formatPhoneNumber (regPhone reg) = None \<Longrightarrow>
   registerUser env st reg = (failure ''Invalid phone number format'', st)"
  by (simp add: registerUser_def)

lemma verifyOTPAndLogin_no_session:
  "formatPhoneNumber raw = Some fp \<Longrightarrow> otpSessions st fp = None \<Longrightarrow>
   verifyOTPAndLogin env st raw otp = (failure ''No OTP session found. Please request a new OTP.'', st)"
  by (simp add: verifyOTPAndLogin_def)

lemma verifyOTPAndLogin_invalid:
  assumes "formatPhoneNumber raw = Some fp" "otpSessions st fp = Some session"
    and "\<not> timeoutClock env - timestamp session > 5 * 60 * 1000"
    and "twilio_verifyOTP (verifyClock env) (verifySidClock env) (otpStore st) fp otp = (r, store')"
    and "\<not> valid r"
  shows "verifyOTPAndLogin env st raw otp =
           (failure (orElse (verrorMessage r) ''Invalid OTP''), st\<lparr>otpStore := store'\<rparr>)"
  using assms by (simp add: verifyOTPAndLogin_def)

lemma verifyOTPAndLogin_valid:
  assumes "formatPhoneNumber raw = Some fp" "otpSessions st fp = Some session"
    and "\<not> timeoutClock env - timestamp session > 5 * 60 * 1000"
    and "twilio_verifyOTP (verifyClock env) (verifySidClock env) (otpStore st) fp otp = (r, store')"
    and "valid r"
  shows "verifyOTPAndLogin env st raw otp = completeLogin env (st\<lparr>otpStore := store'\<rparr>) fp"
  using assms by (simp add: verifyOTPAndLogin_def)

lemma completeLogin_frame:
  "otpStore (snd (completeLogin env st1 fp)) = otpStore st1"
  "otpSessions (snd (completeLogin env st1 fp)) = (otpSessions st1)(fp := None)"
  by (simp_all add: completeLogin_def Let_def split_beta split: option.splits)

lemma completeLogin_succeeds: "success (fst (completeLogin env st fp))"
  by (simp add: completeLogin_def Let_def split_beta split: option.splits)

lemma verifyOTPAndLogin_success:
  assumes "success (fst (verifyOTPAndLogin env st raw otp))"
  shows "\<exists>fp. formatPhoneNumber raw = Some fp
            \<and> otpSessions (snd (verifyOTPAndLogin env st raw otp)) fp = None
            \<and> otpStore (snd (verifyOTPAndLogin env st raw otp)) fp = None"
proof -
  from assms obtain fp where fp: "formatPhoneNumber raw = Some fp"
    by (cases "formatPhoneNumber raw") (auto simp: verifyOTPAndLogin_def failure_def)
  from assms fp obtain session where se: "otpSessions st fp = Some session"
    by (cases "otpSessions st fp") (auto simp: verifyOTPAndLogin_def failure_def)
  from assms fp se have live: "\<not> timeoutClock env - timestamp session > 5 * 60 * 1000"
    by (auto simp: verifyOTPAndLogin_def failure_def split: if_splits)
  obtain r store' where v: "twilio_verifyOTP (verifyClock env) (verifySidClock env) (otpStore st) fp otp = (r, store')"
    by force
  have ok: "valid r"
  proof (rule ccontr)
    assume "\<not> valid r"
    from verifyOTPAndLogin_invalid[OF fp se live v this] assms show False
      by (simp add: failure_def)
  qed
  then have "vstatus r = Approved" using v verify_valid_iff[of "verifyClock env" "verifySidClock env" "otpStore st" fp otp] by simp
  then have st': "store' fp = None"
    using v verify_approved_store[of "verifyClock env" "verifySidClock env" "otpStore st" fp otp] by simp
  show ?thesis
    using fp st' by (simp add: verifyOTPAndLogin_valid[OF fp se live v ok] completeLogin_frame)
qed

lemma demo_send:
  "auth_sendOTP demoSendEnv initialState ''+919876543210'' =
     (\<lparr>success = True, user = None, error = None, requiresOTP = Some True, otpSent = Some True\<rparr>,
      initialState\<lparr>otpStore := [''+919876543210'' \<mapsto> \<lparr>code = ''123456'', expiresAt = 301000\<rparr>],
         otpSessions := [''+919876543210'' \<mapsto> \<lparr>sessionPhone = ''+919876543210'', timestamp = 1001\<rparr>]\<rparr>)"
  by (simp add: auth_sendOTP_formatted[OF fmt_eval4] demoSendEnv_def natToString_123456 initialState_def)

lemma demo_verify_success:
  "success (fst (verifyOTPAndLogin demoVerifyEnv
      (snd (auth_sendOTP demoSendEnv initialState ''+919876543210'')) ''+919876543210'' ''123456''))"
  by (simp add: demo_send verifyOTPAndLogin_def fmt_eval4 demoVerifyEnv_def twilio_verifyOTP_def
      completeLogin_succeeds)

text \<open>
  Claim C1. The claim says that \<open>sendOTP("9876543210")\<close> normalizes the number to
  \<open>+919876543210\<close> and reports the code as sent. In the code the ten-digit test is
  \<open>cleaned.startsWith('6789')\<close>, the literal four characters, so this input is not
  normalized: \<open>sendOTP\<close> fails with "Invalid phone number format" in every state and
  stores nothing.
\<close>

theorem sendOTP_rejects_ten_digit_number:
  "formatPhoneNumber ''9876543210'' = None
 \<and> auth_sendOTP env st ''9876543210'' = (failure ''Invalid phone number format'', st)
 \<and> \<not> success (fst (auth_sendOTP env st ''9876543210''))
 \<and> otpSent (fst (auth_sendOTP env st ''9876543210'')) = None"
  by (simp add: fmt_eval2 auth_sendOTP_rejected failure_def)

text \<open>The second half of scenario 1: with a live session and the right code, a phone that
  has neither a user nor a pending registration gets a new patient user.\<close>

lemma login_creates_patient:
  assumes "formatPhoneNumber raw = Some fp"
    and "otpSessions st fp = Some session" "timeoutClock env - timestamp session \<le> 5 * 60 * 1000"
    and "otpStore st fp = Some e" "verifyClock env \<le> expiresAt e" "code e = otp"
    and "findUserByPhone (users st) fp = None" "pendingRegistrations st fp = None"
  shows "success (fst (verifyOTPAndLogin env st raw otp))
       \<and> (\<exists>u. user (fst (verifyOTPAndLogin env st raw otp)) = Some u
              \<and> phone u = fp \<and> userType u = Patient \<and> name u = ''User '' @ sliceLast fp 4
              \<and> lastLogin u = loginClock env)"
proof -
  have v: "twilio_verifyOTP (verifyClock env) (verifySidClock env) (otpStore st) fp otp =
      (\<lparr>vstatus = Approved, valid = True,
        vsid = Some (''demo_verification_check_'' @ intToString (verifySidClock env)),
        verrorMessage = None\<rparr>, (otpStore st)(fp := None))"
    using assms(4-6) by (simp add: twilio_verifyOTP_def)
  have "verifyOTPAndLogin env st raw otp = completeLogin env (st\<lparr>otpStore := (otpStore st)(fp := None)\<rparr>) fp"
    using assms(3) by (intro verifyOTPAndLogin_valid[OF assms(1,2) _ v]) simp_all
  then show ?thesis
    using assms(7,8) by (simp add: completeLogin_def createUser_def Let_def)
qed

text \<open>
  Claim C2. A code is single-use. After a verification that returns \<open>approved\<close> the
  entry is gone, and repeating the call with the same phone and code, at any later time,
  gives the failure that \<open>verifyOTP\<close> returns when there is no entry, never \<open>approved\<close>.
  At the level of \<open>verifyOTPAndLogin\<close>: after a successful login the same call fails
  with no session found and changes nothing.
\<close>

theorem otp_single_use:
  "(vstatus (fst (twilio_verifyOTP t1 s1 store pn otp)) = Approved \<longrightarrow>
      snd (twilio_verifyOTP t1 s1 store pn otp) pn = None
      \<and> (\<forall>t2 s2. twilio_verifyOTP t2 s2 (snd (twilio_verifyOTP t1 s1 store pn otp)) pn otp =
            (\<lparr>vstatus = Failed, valid = False, vsid = None,
              verrorMessage = Some ''OTP session expired. Please request a new OTP.''\<rparr>,
             snd (twilio_verifyOTP t1 s1 store pn otp))))
 \<and> (success (fst (verifyOTPAndLogin env st raw otp)) \<longrightarrow>
      (\<forall>env'. verifyOTPAndLogin env' (snd (verifyOTPAndLogin env st raw otp)) raw otp =
          (failure ''No OTP session found. Please request a new OTP.'',
           snd (verifyOTPAndLogin env st raw otp))))"
proof (intro conjI impI allI)
  assume a: "vstatus (fst (twilio_verifyOTP t1 s1 store pn otp)) = Approved"
  then show n: "snd (twilio_verifyOTP t1 s1 store pn otp) pn = None"
    by (simp add: verify_approved_store)
  fix t2 s2
  from n show "twilio_verifyOTP t2 s2 (snd (twilio_verifyOTP t1 s1 store pn otp)) pn otp =
            (\<lparr>vstatus = Failed, valid = False, vsid = None,
              verrorMessage = Some ''OTP session expired. Please request a new OTP.''\<rparr>,
             snd (twilio_verifyOTP t1 s1 store pn otp))"
    by (rule verify_absent)
next
  fix env'
  assume "success (fst (verifyOTPAndLogin env st raw otp))"
  from verifyOTPAndLogin_success[OF this] obtain fp where
    "formatPhoneNumber raw = Some fp"
    "otpSessions (snd (verifyOTPAndLogin env st raw otp)) fp = None" by blast
  then show "verifyOTPAndLogin env' (snd (verifyOTPAndLogin env st raw otp)) raw otp =
          (failure ''No OTP session found. Please request a new OTP.'',
           snd (verifyOTPAndLogin env st raw otp))"
    by (rule verifyOTPAndLogin_no_session)
qed

theorem otp_single_use_witness:
  "vstatus (fst (twilio_verifyOTP 1000 1000
      [''+919876543210'' \<mapsto> \<lparr>code = ''123456'', expiresAt = 300000\<rparr>] ''+919876543210'' ''123456''))
     = Approved
 \<and> vstatus (fst (twilio_verifyOTP 2000 2000
      (snd (twilio_verifyOTP 1000 1000
         [''+919876543210'' \<mapsto> \<lparr>code = ''123456'', expiresAt = 300000\<rparr>] ''+919876543210'' ''123456''))
      ''+919876543210'' ''123456'')) = Failed
 \<and> success (fst (verifyOTPAndLogin demoVerifyEnv
      (snd (auth_sendOTP demoSendEnv initialState ''+919876543210'')) ''+919876543210'' ''123456''))
 \<and> fst (verifyOTPAndLogin demoVerifyEnv
      (snd (verifyOTPAndLogin demoVerifyEnv
         (snd (auth_sendOTP demoSendEnv initialState ''+919876543210'')) ''+919876543210'' ''123456''))
      ''+919876543210'' ''123456'') = failure ''No OTP session found. Please request a new OTP.''"
proof -
  have a: "vstatus (fst (twilio_verifyOTP 1000 1000
      [''+919876543210'' \<mapsto> \<lparr>code = ''123456'', expiresAt = 300000\<rparr>] ''+919876543210'' ''123456''))
     = Approved"
    by (simp add: twilio_verifyOTP_def)
  note t = otp_single_use[of 1000 1000
      "[''+919876543210'' \<mapsto> \<lparr>code = ''123456'', expiresAt = 300000\<rparr>]" "''+919876543210''" "''123456''"
      demoVerifyEnv "snd (auth_sendOTP demoSendEnv initialState ''+919876543210'')" "''+919876543210''"]
  from t a have b: "vstatus (fst (twilio_verifyOTP 2000 2000
      (snd (twilio_verifyOTP 1000 1000
         [''+919876543210'' \<mapsto> \<lparr>code = ''123456'', expiresAt = 300000\<rparr>] ''+919876543210'' ''123456''))
      ''+919876543210'' ''123456'')) = Failed"
    by simp
  from t demo_verify_success have c: "fst (verifyOTPAndLogin demoVerifyEnv
      (snd (verifyOTPAndLogin demoVerifyEnv
         (snd (auth_sendOTP demoSendEnv initialState ''+919876543210'')) ''+919876543210'' ''123456''))
      ''+919876543210'' ''123456'') = failure ''No OTP session found. Please request a new OTP.''"
    by simp
  from a b c demo_verify_success show ?thesis by blast
qed

text \<open>
  Claim C5. When an unexpired entry exists for the phone and the submitted code differs
  from the stored one, \<open>verifyOTP\<close> returns \<open>Invalid OTP\<close> and leaves the store unchanged;
  \<open>verifyOTPAndLogin\<close>, which reaches the verifier through a live session, returns that
  failure and leaves the whole state unchanged: the entry, the session, the users, the
  pending registrations and the stored item. The caller can retry.
\<close>

theorem invalid_code_retains_entry_and_session:
  assumes "formatPhoneNumber raw = Some fp"
    and "otpStore st fp = Some e"
    and "verifyClock env \<le> expiresAt e"
    and "code e \<noteq> otp"
    and "otpSessions st fp = Some session"
    and "timeoutClock env - timestamp session \<le> 5 * 60 * 1000"
  shows "twilio_verifyOTP (verifyClock env) (verifySidClock env) (otpStore st) fp otp =
           (\<lparr>vstatus = Failed, valid = False, vsid = None, verrorMessage = Some ''Invalid OTP''\<rparr>,
            otpStore st)
       \<and> verifyOTPAndLogin env st raw otp = (failure ''Invalid OTP'', st)"
proof -
  have v: "twilio_verifyOTP (verifyClock env) (verifySidClock env) (otpStore st) fp otp =
           (\<lparr>vstatus = Failed, valid = False, vsid = None, verrorMessage = Some ''Invalid OTP''\<rparr>,
            otpStore st)"
    using assms by (simp add: twilio_verifyOTP_def)
  have "verifyOTPAndLogin env st raw otp =
          (failure (orElse (Some ''Invalid OTP'') ''Invalid OTP''), st\<lparr>otpStore := otpStore st\<rparr>)"
    using verifyOTPAndLogin_invalid[OF assms(1) assms(5) _ v] assms(6) by simp
  then show ?thesis using v by (simp add: orElse_def)
qed

text \<open>
  The session that \<open>sendOTP\<close> stores is at least as young as the code it stores, so with
  a clock that does not run backwards the session is live for as long as the code is
  unexpired: the live session asked for above comes with the unexpired entry.
\<close>

lemma session_outlives_code:
  assumes "formatPhoneNumber raw = Some fp"
    and "expiryClock senv \<le> sessionClock senv"
    and "timeoutClock venv \<le> verifyClock venv"
    and "otpStore (snd (auth_sendOTP senv st raw)) fp = Some e"
    and "verifyClock venv \<le> expiresAt e"
    and "otpSessions (snd (auth_sendOTP senv st raw)) fp = Some session"
  shows "timeoutClock venv - timestamp session \<le> 5 * 60 * 1000"
  using assms by (auto simp: auth_sendOTP_formatted)

theorem invalid_code_retains_entry_and_session_witness:
  "verifyOTPAndLogin demoVerifyEnv
      (snd (auth_sendOTP demoSendEnv initialState ''+919876543210'')) ''+919876543210'' ''000000''
   = (failure ''Invalid OTP'', snd (auth_sendOTP demoSendEnv initialState ''+919876543210''))"
proof -
  let ?st = "snd (auth_sendOTP demoSendEnv initialState ''+919876543210'')"
  have 1: "otpStore ?st ''+919876543210'' = Some \<lparr>code = ''123456'', expiresAt = 301000\<rparr>"
    by (simp add: demo_send)
  have 2: "verifyClock demoVerifyEnv \<le> expiresAt \<lparr>code = ''123456'', expiresAt = 301000\<rparr>"
    by (simp add: demoVerifyEnv_def)
  have 3: "code \<lparr>code = ''123456'', expiresAt = 301000\<rparr> \<noteq> ''000000''" by simp
  have 4: "otpSessions ?st ''+919876543210'' = Some \<lparr>sessionPhone = ''+919876543210'', timestamp = 1001\<rparr>"
    by (simp add: demo_send)
  have 5: "timeoutClock demoVerifyEnv - timestamp \<lparr>sessionPhone = ''+919876543210'', timestamp = 1001\<rparr>
            \<le> 5 * 60 * 1000"
    by (simp add: demoVerifyEnv_def)
  from invalid_code_retains_entry_and_session[OF fmt_eval4 1 2 3 4 5] show ?thesis by simp
qed

subsection \<open>Only canonical phone numbers are stored\<close>

lemma canonical_initial: "phonesCanonical initialState"
  by (simp add: phonesCanonical_def initialState_def)

lemma canonical_shrink:
  assumes "phonesCanonical st"
    and "otpStore st' \<subseteq>\<^sub>m otpStore st" "otpSessions st' \<subseteq>\<^sub>m otpSessions st"
    and "pendingRegistrations st' \<subseteq>\<^sub>m pendingRegistrations st"
    and "set (users st') \<subseteq> set (users st)"
  shows "phonesCanonical st'"
  unfolding phonesCanonical_def
proof (intro conjI allI impI ballI)
  fix p r assume "otpStore st' p = Some r"
  then have "otpStore st p = Some r" using assms(2) by (metis domI map_le_def)
  then show "isValidPhoneNumber p" using assms(1) by (simp add: phonesCanonical_def)
next
  fix p r assume "otpSessions st' p = Some r"
  then have "otpSessions st p = Some r" using assms(3) by (metis domI map_le_def)
  then show "isValidPhoneNumber p" using assms(1) by (simp add: phonesCanonical_def)
next
  fix p r assume "pendingRegistrations st' p = Some r"
  then have a: "pendingRegistrations st p = Some r" using assms(4) by (metis domI map_le_def)
  then show "isValidPhoneNumber p" using assms(1) unfolding phonesCanonical_def by blast
  from a show "regPhone r = p" using assms(1) unfolding phonesCanonical_def by blast
next
  fix e assume "e \<in> set (users st')"
  then have "e \<in> set (users st)" using assms(5) by blast
  then show "isValidPhoneNumber (phone (snd e))" using assms(1) by (simp add: phonesCanonical_def)
qed

lemma delete_le: "m(k := None) \<subseteq>\<^sub>m m"
  by (auto simp: map_le_def)

lemma set_Map_set: "set (Map_set k v es) \<subseteq> insert (k, v) (set es)"
  by (induction es) auto

lemma modifyFirst_phone:
  "(\<And>u. phone (f u) = phone u) \<Longrightarrow> e \<in> set (modifyFirst P f es) \<Longrightarrow>
     \<exists>e' \<in> set es. phone (snd e) = phone (snd e')"
  by (induction es) (auto split: if_splits)

lemma touchLastLogin_canonical:
  "phonesCanonical st \<Longrightarrow> phonesCanonical (touchLastLogin P t st)"
  unfolding phonesCanonical_def touchLastLogin_def Let_def
  by (auto dest!: modifyFirst_phone[rotated])

lemma createUser_canonical:
  assumes "phonesCanonical st" "isValidPhoneNumber (regPhone reg)"
  shows "phonesCanonical (snd (createUser env st reg))"
  using assms set_Map_set unfolding phonesCanonical_def createUser_def Let_def
  by fastforce

lemma auth_sendOTP_canonical:
  assumes "phonesCanonical st"
  shows "phonesCanonical (snd (auth_sendOTP env st raw))"
proof (cases "formatPhoneNumber raw")
  case None
  with assms show ?thesis by (simp add: auth_sendOTP_rejected)
next
  case (Some fp)
  then have "isValidPhoneNumber fp" by (rule formatPhoneNumber_valid)
  with assms Some show ?thesis
    by (auto simp: auth_sendOTP_formatted phonesCanonical_def)
qed

lemma completeLogin_canonical:
  assumes c: "phonesCanonical st1" and vfp: "isValidPhoneNumber fp"
  shows "phonesCanonical (snd (completeLogin env st1 fp))"
proof -
  let ?st2 = "st1\<lparr>otpSessions := (otpSessions st1)(fp := None)\<rparr>"
  have c2: "phonesCanonical ?st2"
    by (rule canonical_shrink[OF c]) (simp_all add: delete_le)
  show ?thesis
  proof (cases "findUserByPhone (users st1) fp")
    case (Some u)
    then have "snd (completeLogin env st1 fp) =
        touchLastLogin (\<lambda>e. phone (snd e) = fp) (loginClock env) ?st2"
      by (simp add: completeLogin_def)
    then show ?thesis using c2 by (simp add: touchLastLogin_canonical)
  next
    case None
    note nf = this
    show ?thesis
    proof (cases "pendingRegistrations st1 fp")
      case None
      let ?reg = "\<lparr>regName = ''User '' @ sliceLast fp 4, regEmail = None, regPhone = fp,
                   regUserType = Patient, regSpecialty = None,
                   regVillage = None, regOrganization = None\<rparr>"
      have "snd (completeLogin env st1 fp) =
        touchLastLogin (\<lambda>e. fst e = id' (fst (createUser (createEnv env) ?st2 ?reg))) (loginClock env)
          (snd (createUser (createEnv env) ?st2 ?reg))"
        using nf None by (simp add: completeLogin_def split_beta Let_def)
      moreover have "phonesCanonical (snd (createUser (createEnv env) ?st2 ?reg))"
        by (rule createUser_canonical[OF c2]) (simp add: vfp)
      ultimately show ?thesis by (simp add: touchLastLogin_canonical)
    next
      case (Some reg)
      then have rp: "isValidPhoneNumber (regPhone reg)"
        using c unfolding phonesCanonical_def by metis
      let ?s = "snd (createUser (createEnv env) ?st2 reg)"
      have "snd (completeLogin env st1 fp) =
        touchLastLogin (\<lambda>e. fst e = id' (fst (createUser (createEnv env) ?st2 reg))) (loginClock env)
          (?s\<lparr>pendingRegistrations := (pendingRegistrations ?s)(fp := None)\<rparr>)"
        using nf Some by (simp add: completeLogin_def split_beta Let_def)
      moreover have "phonesCanonical ?s"
        by (rule createUser_canonical[OF c2 rp])
      then have "phonesCanonical (?s\<lparr>pendingRegistrations := (pendingRegistrations ?s)(fp := None)\<rparr>)"
        by (rule canonical_shrink) (simp_all add: delete_le)
      ultimately show ?thesis by (simp only: touchLastLogin_canonical)
    qed
  qed
qed

lemma verifyOTPAndLogin_canonical:
  assumes c: "phonesCanonical st"
  shows "phonesCanonical (snd (verifyOTPAndLogin env st raw otp))"
proof (cases "formatPhoneNumber raw")
  case None
  with c show ?thesis by (simp add: verifyOTPAndLogin_def)
next
  case (Some fp)
  note fp = this
  then have vfp: "isValidPhoneNumber fp" by (rule formatPhoneNumber_valid)
  show ?thesis
  proof (cases "otpSessions st fp")
    case None
    with c fp show ?thesis by (simp add: verifyOTPAndLogin_def)
  next
    case (Some session)
    note se = this
    show ?thesis
    proof (cases "timeoutClock env - timestamp session > 5 * 60 * 1000")
      case True
      have "phonesCanonical (st\<lparr>otpSessions := (otpSessions st)(fp := None)\<rparr>)"
        by (rule canonical_shrink[OF c]) (simp_all add: delete_le)
      with True se fp show ?thesis
        by (simp add: verifyOTPAndLogin_def)
    next
      case False
      obtain r store' where v: "twilio_verifyOTP (verifyClock env) (verifySidClock env) (otpStore st) fp otp = (r, store')"
        by force
      then have le: "store' \<subseteq>\<^sub>m otpStore st"
        using verify_store_le[of "verifyClock env" "verifySidClock env" "otpStore st" fp otp] by simp
      have c1: "phonesCanonical (st\<lparr>otpStore := store'\<rparr>)"
        by (rule canonical_shrink[OF c]) (simp_all add: le)
      show ?thesis
      proof (cases "valid r")
        case False
        with verifyOTPAndLogin_invalid[OF fp se \<open>\<not> _ > _\<close> v] c1
        show ?thesis by simp
      next
        case True
        with verifyOTPAndLogin_valid[OF fp se \<open>\<not> _ > _\<close> v] completeLogin_canonical[OF c1 vfp]
        show ?thesis by simp
      qed
    qed
  qed
qed

lemma registerUser_canonical:
  assumes c: "phonesCanonical st"
  shows "phonesCanonical (snd (registerUser env st reg))"
proof (cases "formatPhoneNumber (regPhone reg)")
  case None
  with c show ?thesis by (simp add: registerUser_def)
next
  case (Some fp)
  then have vfp: "isValidPhoneNumber fp" by (rule formatPhoneNumber_valid)
  have "phonesCanonical (st\<lparr>pendingRegistrations := (pendingRegistrations st)(fp \<mapsto>
                    reg\<lparr>regPhone := fp\<rparr>)\<rparr>)"
    using c vfp unfolding phonesCanonical_def by simp
  then show ?thesis using c Some
    by (simp add: registerUser_def auth_sendOTP_canonical)
qed

lemma adminPhones_valid: "p \<in> set adminPhones \<Longrightarrow> isValidPhoneNumber p"
  by (simp add: adminPhones_def isValidPhoneNumber_def matchE164Body_def isDigit19_def isDigit_def)

lemma adminPhoneBranch_canonical:
  "phonesCanonical st \<Longrightarrow> phonesCanonical (snd (adminPhoneBranch env st identifier))"
  by (simp add: adminPhoneBranch_def auth_sendOTP_canonical split: option.splits)

lemma adminEmailBranch_canonical:
  assumes c: "phonesCanonical st"
  shows "phonesCanonical (snd (adminEmailBranch env st identifier password))"
proof -
  have cu: "phonesCanonical (snd (createUser (adminCreateEnv env) st (adminRegistration identifier)))"
    by (rule createUser_canonical[OF c])
      (simp add: adminPhones_valid adminPhones_def adminRegistration_def)
  show ?thesis using c
    by (simp add: adminEmailBranch_def Let_def split_beta touchLastLogin_canonical cu
        split: option.splits)
qed

lemma authenticateAdmin_canonical:
  "phonesCanonical st \<Longrightarrow> phonesCanonical (snd (authenticateAdmin env st identifier password))"
  by (simp add: authenticateAdmin_def adminPhoneBranch_canonical adminEmailBranch_canonical)

text \<open>
  Claim C6. Every value that \<open>formatPhoneNumber\<close> returns passes \<open>isValidPhoneNumber\<close>
  (a \<open>+\<close>, a first digit from 1 to 9, at most 15 digits in all). An input that fails
  normalization yields \<open>null\<close>, every operation given it fails and leaves the state
  unchanged, and every operation keeps the phone numbers held in the state canonical.
\<close>

theorem normalized_phone_is_e164:
  "(\<forall>p. formatPhoneNumber raw = Some p \<longrightarrow> isValidPhoneNumber p \<and> e164Shape p)
 \<and> (formatPhoneNumber raw = None \<longrightarrow>
      auth_sendOTP senv st raw = (failure ''Invalid phone number format'', st)
    \<and> verifyOTPAndLogin venv st raw otp = (failure ''Invalid phone number format'', st)
    \<and> registerUser senv st (reg\<lparr>regPhone := raw\<rparr>) = (failure ''Invalid phone number format'', st)
    \<and> adminPhoneBranch aenv st raw = (failure ''Invalid phone number format'', st))
 \<and> (phonesCanonical st \<longrightarrow>
      phonesCanonical (snd (auth_sendOTP senv st raw))
    \<and> phonesCanonical (snd (verifyOTPAndLogin venv st raw otp))
    \<and> phonesCanonical (snd (registerUser senv st (reg\<lparr>regPhone := raw\<rparr>)))
    \<and> phonesCanonical (snd (authenticateAdmin aenv st raw password)))"
  by (simp add: formatPhoneNumber_valid valid_e164Shape auth_sendOTP_rejected verifyOTPAndLogin_rejected
      registerUser_rejected adminPhoneBranch_def auth_sendOTP_canonical
      verifyOTPAndLogin_canonical registerUser_canonical authenticateAdmin_canonical)

theorem normalized_phone_is_e164_witness:
  "formatPhoneNumber ''+91 98765-43210'' = Some ''+919876543210''
 \<and> isValidPhoneNumber ''+919876543210''
 \<and> e164Shape ''+919876543210''
 \<and> formatPhoneNumber ''9876543210'' = None
 \<and> auth_sendOTP demoSendEnv initialState ''9876543210''
     = (failure ''Invalid phone number format'', initialState)
 \<and> phonesCanonical initialState
 \<and> phonesCanonical (snd (auth_sendOTP demoSendEnv initialState ''+91 98765-43210''))"
  using normalized_phone_is_e164[of "''+91 98765-43210''" demoSendEnv initialState]
    normalized_phone_is_e164[of "''9876543210''" demoSendEnv initialState]
    fmt_eval1 fmt_eval2 canonical_initial
  by simp

subsection \<open>Administrator login\<close>

lemma matchE164Body_digits:
  "list_all isDigit ds \<Longrightarrow>
   matchE164Body ds \<longleftrightarrow> 2 \<le> length ds \<and> length ds \<le> 15 \<and> ds \<noteq> [] \<and> isDigit19 (hd ds)"
  by (cases ds) (auto simp: matchE164Body_def)

lemma testAdminPhone_iff: "testAdminPhone (stripNonDigits identifier) \<longleftrightarrow> looksLikePhone identifier"
proof -
  let ?ds = "stripNonDigits identifier"
  have d: "list_all isDigit ?ds" by (rule strip_is_digits)
  have "testAdminPhone ?ds \<longleftrightarrow> matchE164Body ?ds"
  proof (cases ?ds)
    case Nil
    then show ?thesis by (simp add: testAdminPhone_def matchE164Body_def)
  next
    case (Cons c rest)
    with d have "isDigit c" by simp
    then have "c \<noteq> CHR ''+''" by auto
    with Cons show ?thesis by (simp add: testAdminPhone_def)
  qed
  then show ?thesis using matchE164Body_digits[OF d] by (simp add: looksLikePhone_def Let_def)
qed

lemma adminPhoneBranch_no_user:
  "user (fst (adminPhoneBranch env st identifier)) = None
 \<and> users (snd (adminPhoneBranch env st identifier)) = users st
 \<and> localStorage (snd (adminPhoneBranch env st identifier)) = localStorage st"
  by (auto simp: adminPhoneBranch_def failure_def auth_sendOTP_def twilio_sendOTP_def
      split: option.splits)

lemma adminEmailBranch_frame:
  "otpSent (fst (adminEmailBranch env st identifier password)) = None
 \<and> otpStore (snd (adminEmailBranch env st identifier password)) = otpStore st
 \<and> otpSessions (snd (adminEmailBranch env st identifier password)) = otpSessions st"
  by (simp add: adminEmailBranch_def failure_def Let_def split_beta split: option.splits)

lemma looks_eval1: "looksLikePhone ''easymed2025@example.com''"
  by (simp add: looksLikePhone_def stripNonDigits_def isDigit_def isDigit19_def)

lemma looks_eval2: "\<not> looksLikePhone ''admin@easymed.in''"
  by (simp add: looksLikePhone_def stripNonDigits_def isDigit_def isDigit19_def)




lemma adminEmailBranch_denied:
  "identifier \<notin> set adminEmails \<Longrightarrow>
   adminEmailBranch env st identifier password =
     (failure ''Access denied. Contact system administrator.'', st)"
  by (simp add: adminEmailBranch_def)

lemma adminEmailBranch_bad_password:
  "identifier \<in> set adminEmails \<Longrightarrow> password = None \<or> password = Some [] \<or> (\<exists>pw. password = Some pw \<and> pw \<notin> set adminPasswords) \<Longrightarrow>
   adminEmailBranch env st identifier password = (failure ''Invalid password'', st)"
  by (auto simp: adminEmailBranch_def)

lemma adminEmailBranch_found:
  assumes "identifier \<in> set adminEmails" "password = Some pw" "pw \<in> set adminPasswords"
    and "find (\<lambda>x. email (snd x) = Some identifier) (users st) = Some e"
  shows "adminEmailBranch env st identifier password =
     (\<lparr>success = True, user = Some ((snd e)\<lparr>lastLogin := adminLoginClock env\<rparr>),
       error = None, requiresOTP = None, otpSent = None\<rparr>,
      touchLastLogin (\<lambda>e. email (snd e) = Some identifier) (adminLoginClock env) st)"
proof -
  have "pw \<noteq> []" using assms(3) by (auto simp: adminPasswords_def)
  then show ?thesis using assms by (simp add: adminEmailBranch_def findUserByEmail_def)
qed

lemma adminEmailBranch_created:
  assumes "identifier \<in> set adminEmails" "password = Some pw" "pw \<in> set adminPasswords"
    and "find (\<lambda>x. email (snd x) = Some identifier) (users st) = None"
  shows "adminEmailBranch env st identifier password =
     (\<lparr>success = True,
       user = Some ((fst (createUser (adminCreateEnv env) st (adminRegistration identifier)))
                \<lparr>lastLogin := adminLoginClock env\<rparr>),
       error = None, requiresOTP = None, otpSent = None\<rparr>,
      touchLastLogin
        (\<lambda>e. fst e = id' (fst (createUser (adminCreateEnv env) st (adminRegistration identifier))))
        (adminLoginClock env)
        (snd (createUser (adminCreateEnv env) st (adminRegistration identifier))))"
proof -
  have "pw \<noteq> []" using assms(3) by (auto simp: adminPasswords_def)
  then show ?thesis using assms
    by (simp add: adminEmailBranch_def findUserByEmail_def Let_def split_beta)
qed




lemma fmt_eval6: "formatPhoneNumber ''+919060328119'' = Some ''+919060328119''"
  by (simp add: formatPhoneNumber_def stripNonDigits_def isDigit_def startsWith_def)

lemma fmt_eval7: "formatPhoneNumber ''+91 90603 28119'' = Some ''+919060328119''"
  by (simp add: formatPhoneNumber_def stripNonDigits_def isDigit_def startsWith_def)

lemma looks_eval3: "looksLikePhone ''919876543210''"
  by (simp add: looksLikePhone_def stripNonDigits_def isDigit_def isDigit19_def)

lemma looks_eval4: "looksLikePhone ''+91 90603 28119''"
  by (simp add: looksLikePhone_def stripNonDigits_def isDigit_def isDigit19_def)

text \<open>The phone branch, written out: format, the allow-list of one number, then \<open>sendOTP\<close>.\<close>

lemma adminPhoneBranch_explicit:
  "adminPhoneBranch env st ident =
     (case formatPhoneNumber ident of
        None \<Rightarrow> (failure ''Invalid phone number format'', st)
      | Some fp \<Rightarrow>
          if fp \<noteq> ''+919060328119'' then
            (failure ''Access denied. Contact system administrator.'', st)
          else auth_sendOTP (adminSendEnv env) st fp)"
  by (simp add: adminPhoneBranch_def adminPhones_def split: option.splits)

lemma adminPhoneBranch_sends:
  assumes "formatPhoneNumber ident = Some ''+919060328119''"
  shows "adminPhoneBranch env st ident =
     (\<lparr>success = True, user = None, error = None, requiresOTP = Some True, otpSent = Some True\<rparr>,
      st\<lparr>otpStore := (otpStore st)(''+919060328119'' \<mapsto>
            \<lparr>code = natToString (otpDraw (adminSendEnv env)),
             expiresAt = expiryClock (adminSendEnv env) + 300000\<rparr>),
         otpSessions := (otpSessions st)(''+919060328119'' \<mapsto>
            \<lparr>sessionPhone = ''+919060328119'', timestamp = sessionClock (adminSendEnv env)\<rparr>)\<rparr>)"
  unfolding adminPhoneBranch_explicit assms
  by (simp add: auth_sendOTP_formatted[OF fmt_eval6])

lemma adminEmailBranch_accepts:
  assumes "ident \<in> set adminEmails" "pw \<in> set adminPasswords"
  shows "success (fst (adminEmailBranch env st ident (Some pw)))
       \<and> user (fst (adminEmailBranch env st ident (Some pw))) \<noteq> None"
proof (cases "find (\<lambda>x. email (snd x) = Some ident) (users st)")
  case None
  show ?thesis unfolding adminEmailBranch_created[OF assms(1) refl assms(2) None] by simp
next
  case (Some e)
  show ?thesis unfolding adminEmailBranch_found[OF assms(1) refl assms(2) Some] by simp
qed

text \<open>
  Claim C10. \<open>authenticateAdmin\<close> routes an identifier by its digits alone. When stripping
  the non-digits leaves 2 to 15 digits with a first digit from 1 to 9, the phone branch is
  taken: the identifier is formatted, a number that does not format is refused, a
  formatted number other than the administrator phone \<open>+919060328119\<close> is denied, and
  for that phone \<open>sendOTP\<close> runs, which stores a code and a session and reports the code
  as sent. The password and the e-mail and password lists play no part: the result is the
  same for every password, no user is returned and the directory and the stored item are
  left as they are, so such an identifier never logs in through the e-mail branch.
  Otherwise the e-mail branch is taken: an identifier off the e-mail list is denied, a
  listed one with a missing or unlisted password is refused, a listed one with a listed
  password logs in with a user; no code is sent and the OTP state is left as it is. A
  result that carries a user comes from an identifier whose digits fail the pattern.
\<close>

theorem admin_identifier_routed_by_digits:
  "(looksLikePhone ident \<longrightarrow>
      authenticateAdmin env st ident password =
        (case formatPhoneNumber ident of
           None \<Rightarrow> (failure ''Invalid phone number format'', st)
         | Some fp \<Rightarrow>
             if fp \<noteq> ''+919060328119'' then
               (failure ''Access denied. Contact system administrator.'', st)
             else auth_sendOTP (adminSendEnv env) st fp)
    \<and> (formatPhoneNumber ident = Some ''+919060328119'' \<longrightarrow>
         authenticateAdmin env st ident password =
           (\<lparr>success = True, user = None, error = None, requiresOTP = Some True,
             otpSent = Some True\<rparr>,
            st\<lparr>otpStore := (otpStore st)(''+919060328119'' \<mapsto>
                  \<lparr>code = natToString (otpDraw (adminSendEnv env)),
                   expiresAt = expiryClock (adminSendEnv env) + 300000\<rparr>),
               otpSessions := (otpSessions st)(''+919060328119'' \<mapsto>
                  \<lparr>sessionPhone = ''+919060328119'',
                   timestamp = sessionClock (adminSendEnv env)\<rparr>)\<rparr>))
    \<and> authenticateAdmin env st ident password = authenticateAdmin env st ident password'
    \<and> user (fst (authenticateAdmin env st ident password)) = None
    \<and> users (snd (authenticateAdmin env st ident password)) = users st
    \<and> localStorage (snd (authenticateAdmin env st ident password)) = localStorage st)
 \<and> (\<not> looksLikePhone ident \<longrightarrow>
      (ident \<notin> set adminEmails \<longrightarrow>
         authenticateAdmin env st ident password =
           (failure ''Access denied. Contact system administrator.'', st))
    \<and> (ident \<in> set adminEmails
         \<and> (password = None \<or> password = Some [] \<or> (\<exists>pw. password = Some pw \<and> pw \<notin> set adminPasswords)) \<longrightarrow>
         authenticateAdmin env st ident password = (failure ''Invalid password'', st))
    \<and> (ident \<in> set adminEmails \<and> (\<exists>pw. password = Some pw \<and> pw \<in> set adminPasswords) \<longrightarrow>
         success (fst (authenticateAdmin env st ident password))
         \<and> user (fst (authenticateAdmin env st ident password)) \<noteq> None)
    \<and> otpSent (fst (authenticateAdmin env st ident password)) = None
    \<and> otpStore (snd (authenticateAdmin env st ident password)) = otpStore st
    \<and> otpSessions (snd (authenticateAdmin env st ident password)) = otpSessions st)
 \<and> (user (fst (authenticateAdmin env st ident password)) \<noteq> None \<longrightarrow> \<not> looksLikePhone ident)"
proof -
  have ph: "looksLikePhone ident \<Longrightarrow>
      authenticateAdmin env st ident pw' = adminPhoneBranch env st ident" for pw'
    by (simp add: authenticateAdmin_def testAdminPhone_iff)
  have em: "\<not> looksLikePhone ident \<Longrightarrow>
      authenticateAdmin env st ident password = adminEmailBranch env st ident password"
    by (simp add: authenticateAdmin_def testAdminPhone_iff)
  have nu: "looksLikePhone ident \<Longrightarrow> user (fst (authenticateAdmin env st ident password)) = None"
    by (simp add: ph adminPhoneBranch_no_user)
  have 1: "looksLikePhone ident \<longrightarrow>
      authenticateAdmin env st ident password =
        (case formatPhoneNumber ident of
           None \<Rightarrow> (failure ''Invalid phone number format'', st)
         | Some fp \<Rightarrow>
             if fp \<noteq> ''+919060328119'' then
               (failure ''Access denied. Contact system administrator.'', st)
             else auth_sendOTP (adminSendEnv env) st fp)
    \<and> (formatPhoneNumber ident = Some ''+919060328119'' \<longrightarrow>
         authenticateAdmin env st ident password =
           (\<lparr>success = True, user = None, error = None, requiresOTP = Some True,
             otpSent = Some True\<rparr>,
            st\<lparr>otpStore := (otpStore st)(''+919060328119'' \<mapsto>
                  \<lparr>code = natToString (otpDraw (adminSendEnv env)),
                   expiresAt = expiryClock (adminSendEnv env) + 300000\<rparr>),
               otpSessions := (otpSessions st)(''+919060328119'' \<mapsto>
                  \<lparr>sessionPhone = ''+919060328119'',
                   timestamp = sessionClock (adminSendEnv env)\<rparr>)\<rparr>))
    \<and> authenticateAdmin env st ident password = authenticateAdmin env st ident password'
    \<and> user (fst (authenticateAdmin env st ident password)) = None
    \<and> users (snd (authenticateAdmin env st ident password)) = users st
    \<and> localStorage (snd (authenticateAdmin env st ident password)) = localStorage st"
  proof
    assume l: "looksLikePhone ident"
    show "authenticateAdmin env st ident password =
        (case formatPhoneNumber ident of
           None \<Rightarrow> (failure ''Invalid phone number format'', st)
         | Some fp \<Rightarrow>
             if fp \<noteq> ''+919060328119'' then
               (failure ''Access denied. Contact system administrator.'', st)
             else auth_sendOTP (adminSendEnv env) st fp)
    \<and> (formatPhoneNumber ident = Some ''+919060328119'' \<longrightarrow>
         authenticateAdmin env st ident password =
           (\<lparr>success = True, user = None, error = None, requiresOTP = Some True,
             otpSent = Some True\<rparr>,
            st\<lparr>otpStore := (otpStore st)(''+919060328119'' \<mapsto>
                  \<lparr>code = natToString (otpDraw (adminSendEnv env)),
                   expiresAt = expiryClock (adminSendEnv env) + 300000\<rparr>),
               otpSessions := (otpSessions st)(''+919060328119'' \<mapsto>
                  \<lparr>sessionPhone = ''+919060328119'',
                   timestamp = sessionClock (adminSendEnv env)\<rparr>)\<rparr>))
    \<and> authenticateAdmin env st ident password = authenticateAdmin env st ident password'
    \<and> user (fst (authenticateAdmin env st ident password)) = None
    \<and> users (snd (authenticateAdmin env st ident password)) = users st
    \<and> localStorage (snd (authenticateAdmin env st ident password)) = localStorage st"
      unfolding ph[OF l]
      using adminPhoneBranch_explicit[of env st ident] adminPhoneBranch_sends[of ident env st]
        adminPhoneBranch_no_user[of env st ident]
      by simp
  qed
  have 2: "\<not> looksLikePhone ident \<longrightarrow>
      (ident \<notin> set adminEmails \<longrightarrow>
         authenticateAdmin env st ident password =
           (failure ''Access denied. Contact system administrator.'', st))
    \<and> (ident \<in> set adminEmails
         \<and> (password = None \<or> password = Some [] \<or> (\<exists>pw. password = Some pw \<and> pw \<notin> set adminPasswords)) \<longrightarrow>
         authenticateAdmin env st ident password = (failure ''Invalid password'', st))
    \<and> (ident \<in> set adminEmails \<and> (\<exists>pw. password = Some pw \<and> pw \<in> set adminPasswords) \<longrightarrow>
         success (fst (authenticateAdmin env st ident password))
         \<and> user (fst (authenticateAdmin env st ident password)) \<noteq> None)
    \<and> otpSent (fst (authenticateAdmin env st ident password)) = None
    \<and> otpStore (snd (authenticateAdmin env st ident password)) = otpStore st
    \<and> otpSessions (snd (authenticateAdmin env st ident password)) = otpSessions st"
  proof
    assume n: "\<not> looksLikePhone ident"
    show "(ident \<notin> set adminEmails \<longrightarrow>
         authenticateAdmin env st ident password =
           (failure ''Access denied. Contact system administrator.'', st))
    \<and> (ident \<in> set adminEmails
         \<and> (password = None \<or> password = Some [] \<or> (\<exists>pw. password = Some pw \<and> pw \<notin> set adminPasswords)) \<longrightarrow>
         authenticateAdmin env st ident password = (failure ''Invalid password'', st))
    \<and> (ident \<in> set adminEmails \<and> (\<exists>pw. password = Some pw \<and> pw \<in> set adminPasswords) \<longrightarrow>
         success (fst (authenticateAdmin env st ident password))
         \<and> user (fst (authenticateAdmin env st ident password)) \<noteq> None)
    \<and> otpSent (fst (authenticateAdmin env st ident password)) = None
    \<and> otpStore (snd (authenticateAdmin env st ident password)) = otpStore st
    \<and> otpSessions (snd (authenticateAdmin env st ident password)) = otpSessions st"
      unfolding em[OF n]
      using adminEmailBranch_frame[of env st ident password]
        adminEmailBranch_accepts[of ident _ env st]
      by (auto simp: adminEmailBranch_denied intro: adminEmailBranch_bad_password)
  qed
  have 3: "user (fst (authenticateAdmin env st ident password)) \<noteq> None \<longrightarrow> \<not> looksLikePhone ident"
    using nu by (cases "looksLikePhone ident") simp_all
  show ?thesis by (rule conjI[OF 1 conjI[OF 2 3]])
qed


theorem admin_identifier_routed_by_digits_witness:
  "looksLikePhone ''easymed2025@example.com''
 \<and> authenticateAdmin demoAdminEnv initialState ''easymed2025@example.com'' (Some ''easymed2025'')
     = (failure ''Invalid phone number format'', initialState)
 \<and> looksLikePhone ''919876543210''
 \<and> authenticateAdmin demoAdminEnv initialState ''919876543210'' None
     = (failure ''Access denied. Contact system administrator.'', initialState)
 \<and> looksLikePhone ''+91 90603 28119''
 \<and> authenticateAdmin demoAdminEnv initialState ''+91 90603 28119'' None
     = (\<lparr>success = True, user = None, error = None, requiresOTP = Some True, otpSent = Some True\<rparr>,
        initialState\<lparr>otpStore := [''+919060328119'' \<mapsto> \<lparr>code = ''123456'', expiresAt = 301000\<rparr>],
          otpSessions := [''+919060328119'' \<mapsto>
            \<lparr>sessionPhone = ''+919060328119'', timestamp = 1001\<rparr>]\<rparr>)
 \<and> \<not> looksLikePhone ''admin@easymed.in''
 \<and> authenticateAdmin demoAdminEnv initialState ''admin@easymed.in'' None
     = (failure ''Invalid password'', initialState)
 \<and> success (fst (authenticateAdmin demoAdminEnv initialState ''admin@easymed.in'' (Some ''admin123'')))
 \<and> user (fst (authenticateAdmin demoAdminEnv initialState ''admin@easymed.in'' (Some ''admin123'')))
     \<noteq> None
 \<and> \<not> looksLikePhone ''intruder@example.com''
 \<and> authenticateAdmin demoAdminEnv initialState ''intruder@example.com'' (Some ''admin123'')
     = (failure ''Access denied. Contact system administrator.'', initialState)"
proof -
  have e: "''admin@easymed.in'' \<in> set adminEmails" by (simp add: adminEmails_def)
  have p: "''admin123'' \<in> set adminPasswords" by (simp add: adminPasswords_def)
  have i: "''intruder@example.com'' \<notin> set adminEmails" by (simp add: adminEmails_def)
  have l: "\<not> looksLikePhone ''intruder@example.com''"
    by (simp add: looksLikePhone_def stripNonDigits_def isDigit_def)
  have a: "authenticateAdmin demoAdminEnv initialState ''easymed2025@example.com'' (Some ''easymed2025'')
     = (failure ''Invalid phone number format'', initialState)"
    using admin_identifier_routed_by_digits[where ident = "''easymed2025@example.com''"
        and env = demoAdminEnv and st = initialState and password = "Some ''easymed2025''" and password' = None]
      looks_eval1 fmt_eval3 by simp
  have b: "authenticateAdmin demoAdminEnv initialState ''919876543210'' None
     = (failure ''Access denied. Contact system administrator.'', initialState)"
    using admin_identifier_routed_by_digits[where ident = "''919876543210''"
        and env = demoAdminEnv and st = initialState and password = None and password' = None]
      looks_eval3 fmt_eval5 by simp
  have c: "authenticateAdmin demoAdminEnv initialState ''+91 90603 28119'' None
     = (\<lparr>success = True, user = None, error = None, requiresOTP = Some True, otpSent = Some True\<rparr>,
        initialState\<lparr>otpStore := [''+919060328119'' \<mapsto> \<lparr>code = ''123456'', expiresAt = 301000\<rparr>],
          otpSessions := [''+919060328119'' \<mapsto>
            \<lparr>sessionPhone = ''+919060328119'', timestamp = 1001\<rparr>]\<rparr>)"
    using admin_identifier_routed_by_digits[where ident = "''+91 90603 28119''"
        and env = demoAdminEnv and st = initialState and password = None and password' = None,
        THEN conjunct1, THEN mp, OF looks_eval4, THEN conjunct2, THEN conjunct1, THEN mp,
        OF fmt_eval7]
    by (simp add: demoAdminEnv_def demoSendEnv_def natToString_123456 initialState_def)
  have d: "authenticateAdmin demoAdminEnv initialState ''admin@easymed.in'' None
     = (failure ''Invalid password'', initialState)"
    using admin_identifier_routed_by_digits[where ident = "''admin@easymed.in''"
        and env = demoAdminEnv and st = initialState and password = None and password' = None]
      looks_eval2 e by simp
  have f: "success (fst (authenticateAdmin demoAdminEnv initialState ''admin@easymed.in'' (Some ''admin123'')))"
    "user (fst (authenticateAdmin demoAdminEnv initialState ''admin@easymed.in'' (Some ''admin123''))) \<noteq> None"
    using admin_identifier_routed_by_digits[where ident = "''admin@easymed.in''"
        and env = demoAdminEnv and st = initialState and password = "Some ''admin123''" and password' = None]
      looks_eval2 e p by simp_all
  have g: "authenticateAdmin demoAdminEnv initialState ''intruder@example.com'' (Some ''admin123'')
     = (failure ''Access denied. Contact system administrator.'', initialState)"
    using admin_identifier_routed_by_digits[where ident = "''intruder@example.com''"
        and env = demoAdminEnv and st = initialState and password = "Some ''admin123''" and password' = None]
      l i by simp
  from a b c d f g l looks_eval1 looks_eval2 looks_eval3 looks_eval4 show ?thesis
    by (intro conjI)
qed








subsection \<open>Dates: the calendar\<close>

text \<open>The year, cycle and day split of a day of the era.\<close>

lemma era_split:
  fixes doe :: int
  assumes "0 \<le> doe" "doe \<le> 146096"
    and c: "c = min 3 (doe div 36524)"
    and r: "r = doe - 36524 * c"
    and q: "q = min 24 (r div 1461)"
    and s: "s = r - 1461 * q"
    and k: "k = min 3 (s div 365)"
    and doy: "doy = s - 365 * k"
  shows "0 \<le> c \<and> c \<le> 3 \<and> 0 \<le> q \<and> q \<le> 24 \<and> 0 \<le> k \<and> k \<le> 3 \<and> 0 \<le> doy \<and> doy \<le> 365"
proof -
  have cb: "0 \<le> c" "c \<le> 3" using assms(1) by (simp_all add: c)
  have rb: "0 \<le> r" "r \<le> 36524" using assms(1,2) unfolding r c by (auto simp: min_def)
  have qb: "0 \<le> q" "q \<le> 24" using rb by (simp_all add: q)
  have sb: "0 \<le> s" "s \<le> 1460" using rb unfolding s q by (auto simp: min_def)
  have kb: "0 \<le> k" "k \<le> 3" using sb by (simp_all add: k)
  have db: "0 \<le> doy" "doy \<le> 365" using sb unfolding doy k by (auto simp: min_def)
  from cb qb kb db show ?thesis by simp
qed

lemma month_day_bounds:
  fixes doy :: int
  assumes "0 \<le> doy" "doy \<le> 365"
    and mp: "mp = (5 * doy + 2) div 153"
    and d: "d = doy - (153 * mp + 2) div 5 + 1"
  shows "0 \<le> mp \<and> mp \<le> 11 \<and> 1 \<le> d \<and> d \<le> 31"
proof -
  have mpb: "0 \<le> mp" "mp \<le> 11" using assms(1,2) by (simp_all add: mp)
  have m1: "153 * mp \<le> 5 * doy + 2" unfolding mp by simp
  have m2: "5 * doy + 2 < 153 * mp + 153" unfolding mp by simp
  define e where "e = (153 * mp + 2) div 5"
  have e1: "5 * e \<le> 153 * mp + 2" unfolding e_def by simp
  have e2: "153 * mp + 2 < 5 * e + 5" unfolding e_def by simp
  have "1 \<le> d" "d \<le> 31" using m1 m2 e1 e2 unfolding d e_def[symmetric] by linarith+
  with mpb show ?thesis by simp
qed

lemma yoe_div:
  fixes c q k :: int
  assumes "0 \<le> c" "c \<le> 3" "0 \<le> q" "q \<le> 24" "0 \<le> k" "k \<le> 3"
  shows "(100 * c + 4 * q + k) div 4 = 25 * c + q" "(100 * c + 4 * q + k) div 100 = c"
  using assms by linarith+

lemma era_div:
  fixes yoe era :: int
  assumes "0 \<le> yoe" "yoe \<le> 399"
  shows "(yoe + era * 400) div 400 = era" "(yoe + era * 400) mod 400 = yoe"
  using assms by simp_all

text \<open>What \<open>civilFromDays\<close> computes, with the intermediate values named.\<close>

lemma civilFromDays_unfold:
  assumes "civilFromDays z0 = (y, m, d)"
  obtains era doe c r q s k doy mp where
    "era = (z0 + 719468) div 146097" "doe = (z0 + 719468) mod 146097"
    "c = min 3 (doe div 36524)" "r = doe - 36524 * c" "q = min 24 (r div 1461)"
    "s = r - 1461 * q" "k = min 3 (s div 365)" "doy = s - 365 * k"
    "mp = (5 * doy + 2) div 153" "d = doy - (153 * mp + 2) div 5 + 1"
    "m = (if mp < 10 then mp + 3 else mp - 9)"
    "y = (if m \<le> 2 then 100 * c + 4 * q + k + era * 400 + 1 else 100 * c + 4 * q + k + era * 400)"
proof -
  define era where "era = (z0 + 719468) div 146097"
  define doe where "doe = (z0 + 719468) mod 146097"
  define c where "c = min 3 (doe div 36524)"
  define r where "r = doe - 36524 * c"
  define q where "q = min 24 (r div 1461)"
  define s where "s = r - 1461 * q"
  define k where "k = min 3 (s div 365)"
  define doy where "doy = s - 365 * k"
  define mp where "mp = (5 * doy + 2) div 153"
  define d' where "d' = doy - (153 * mp + 2) div 5 + 1"
  define m' where "m' = (if mp < 10 then mp + 3 else mp - 9)"
  have "civilFromDays z0 =
      (if m' \<le> 2 then 100 * c + 4 * q + k + era * 400 + 1 else 100 * c + 4 * q + k + era * 400, m', d')"
    unfolding civilFromDays_def Let_def m'_def d'_def mp_def doy_def k_def s_def q_def r_def
      c_def doe_def era_def
    by (rule refl)
  with assms have "m = m'" "d = d'"
    "y = (if m' \<le> 2 then 100 * c + 4 * q + k + era * 400 + 1 else 100 * c + 4 * q + k + era * 400)"
    by (auto split: if_splits)
  then show thesis
    using that[OF era_def doe_def c_def r_def q_def s_def k_def doy_def mp_def] d'_def m'_def
    by simp
qed

lemma civilFromDays_roundtrip:
  assumes "civilFromDays z0 = (y, m, d)"
  shows "daysFromCivil y m d = z0 \<and> 1 \<le> m \<and> m \<le> 12 \<and> 1 \<le> d \<and> d \<le> 31"
proof -
  from assms obtain era doe c r q s k doy mp where
    era: "era = (z0 + 719468) div 146097" and doe: "doe = (z0 + 719468) mod 146097"
    and c: "c = min 3 (doe div 36524)" and r: "r = doe - 36524 * c"
    and q: "q = min 24 (r div 1461)" and s: "s = r - 1461 * q"
    and k: "k = min 3 (s div 365)" and doy: "doy = s - 365 * k"
    and mp: "mp = (5 * doy + 2) div 153" and d: "d = doy - (153 * mp + 2) div 5 + 1"
    and m: "m = (if mp < 10 then mp + 3 else mp - 9)"
    and y: "y = (if m \<le> 2 then 100 * c + 4 * q + k + era * 400 + 1 else 100 * c + 4 * q + k + era * 400)"
    by (rule civilFromDays_unfold)
  define yoe where "yoe = 100 * c + 4 * q + k"
  have doeb: "0 \<le> doe" "doe \<le> 146096" by (simp_all add: doe)
  from era_split[OF doeb c r q s k doy]
  have b: "0 \<le> c" "c \<le> 3" "0 \<le> q" "q \<le> 24" "0 \<le> k" "k \<le> 3" "0 \<le> doy" "doy \<le> 365"
    by simp_all
  from month_day_bounds[OF b(7,8) mp d]
  have mb: "0 \<le> mp" "mp \<le> 11" "1 \<le> d" "d \<le> 31" by simp_all
  have yoeb: "0 \<le> yoe" "yoe \<le> 399" using b by (simp_all add: yoe_def)
  have y4: "yoe div 4 = 25 * c + q" and y100: "yoe div 100 = c"
    unfolding yoe_def using yoe_div[OF b(1-6)] by simp_all
  have doe_eq: "doe = yoe * 365 + yoe div 4 - yoe div 100 + doy"
    unfolding y4 y100 by (simp add: yoe_def doy s r)
  have mb': "1 \<le> m" "m \<le> 12" using mb m by (simp_all split: if_splits)
  let ?y' = "if m \<le> 2 then y - 1 else y"
  have y': "?y' = yoe + era * 400" using y by (simp add: yoe_def)
  have e': "?y' div 400 = era" "?y' mod 400 = yoe"
    unfolding y' using era_div[OF yoeb] by simp_all
  have mp': "(if m > 2 then m - 3 else m + 9) = mp"
    using m mb by (simp split: if_splits)
  have doy': "(153 * mp + 2) div 5 + d - 1 = doy" using d by simp
  have "daysFromCivil y m d = era * 146097 + doe - 719468"
    unfolding daysFromCivil_def Let_def e' mp' doy' using doe_eq by simp
  also have "\<dots> = z0" unfolding era doe by simp
  finally show ?thesis using mb' mb by simp
qed

lemma civilFromDays_year_bounds:
  assumes "civilFromDays z0 = (y, m, d)" "- 100000000 \<le> z0" "z0 \<le> 100000000"
  shows "- 272000 \<le> y \<and> y \<le> 276000"
proof -
  from assms(1) obtain era doe c r q s k doy mp where
    era: "era = (z0 + 719468) div 146097" and doe: "doe = (z0 + 719468) mod 146097"
    and c: "c = min 3 (doe div 36524)" and r: "r = doe - 36524 * c"
    and q: "q = min 24 (r div 1461)" and s: "s = r - 1461 * q"
    and k: "k = min 3 (s div 365)" and doy: "doy = s - 365 * k"
    and y: "y = (if m \<le> 2 then 100 * c + 4 * q + k + era * 400 + 1 else 100 * c + 4 * q + k + era * 400)"
    by (rule civilFromDays_unfold)
  have doeb: "0 \<le> doe" "doe \<le> 146096" by (simp_all add: doe)
  from era_split[OF doeb c r q s k doy]
  have b: "0 \<le> c" "c \<le> 3" "0 \<le> q" "q \<le> 24" "0 \<le> k" "k \<le> 3"
    by simp_all
  have "- 680 \<le> era" "era \<le> 689" using assms(2,3) unfolding era by simp_all
  then show ?thesis using b y by (auto split: if_splits)
qed

lemma time_of_day:
  fixes ms :: int
  assumes "0 \<le> ms" "ms < 86400000"
  shows "0 \<le> ms div 3600000 \<and> ms div 3600000 \<le> 23
       \<and> ms div 3600000 * 3600000 + (ms div 60000 mod 60) * 60000
           + (ms div 1000 mod 60) * 1000 + ms mod 1000 = ms"
proof -
  define A where "A = ms div 1000"
  define B where "B = A div 60"
  define C where "C = B div 60"
  define a where "a = ms mod 1000"
  define b where "b = A mod 60"
  define c where "c = B mod 60"
  have e1: "ms = 1000 * A + a" unfolding A_def a_def by simp
  have e2: "A = 60 * B + b" unfolding B_def b_def by simp
  have e3: "B = 60 * C + c" unfolding C_def c_def by simp
  have d1: "ms div 60000 = B" unfolding B_def A_def by (simp add: div_mult2_eq[symmetric])
  have d2: "ms div 3600000 = C" unfolding C_def B_def A_def by (simp add: div_mult2_eq[symmetric])
  have hb: "0 \<le> ms div 3600000" "ms div 3600000 \<le> 23" using assms by simp_all
  have "C * 3600000 + c * 60000 + b * 1000 + a = ms"
    using e1 e2 e3 by linarith
  then have "ms div 3600000 * 3600000 + (ms div 60000 mod 60) * 60000
           + (ms div 1000 mod 60) * 1000 + ms mod 1000 = ms"
    unfolding d1 d2 c_def[symmetric] A_def[symmetric] b_def[symmetric] a_def[symmetric] .
  with hb show ?thesis by blast
qed

subsection \<open>Dates: the date-time string\<close>

lemma digitChar_props: "isDigit (digitChar d) \<and> digitVal (digitChar d) = d mod 10"
proof -
  define k where "k = d mod 10"
  have "k < 10" by (simp add: k_def)
  then have "k = 0 \<or> k = 1 \<or> k = 2 \<or> k = 3 \<or> k = 4 \<or> k = 5 \<or> k = 6 \<or> k = 7 \<or> k = 8 \<or> k = 9"
    by arith
  then show ?thesis
    unfolding k_def
    by (elim disjE) (simp_all add: digitChar_def isDigit_def digitVal_def)
qed

lemma isDigit_digitChar [simp]: "isDigit (digitChar d)"
  using digitChar_props by blast

lemma digitVal_digitChar [simp]: "digitVal (digitChar d) = d mod 10"
  using digitChar_props by blast

lemma digitChar_not_sign [simp]: "digitChar d \<noteq> CHR ''+''" "digitChar d \<noteq> CHR ''-''"
  using isDigit_digitChar[of d] by (auto simp: isDigit_def)

lemma digitChar_mod [simp]: "digitChar (d mod 10) = digitChar d"
  by (simp add: digitChar_def)

lemma length_padDigits [simp]: "length (padDigits w n) = w"
  by (induction w arbitrary: n) simp_all

lemma padDigits_digits [simp]: "list_all isDigit (padDigits w n)"
  by (induction w arbitrary: n) simp_all

lemma padDigits_value:
  "foldl (\<lambda>a c. 10 * a + digitVal c) 0 (padDigits w n) = n mod 10 ^ w"
proof (induction w arbitrary: n)
  case 0
  show ?case by simp
next
  case (Suc w)
  have "n mod (10 * 10 ^ w) = 10 * (n div 10 mod 10 ^ w) + n mod 10"
    by (simp add: mod_mult2_eq)
  with Suc show ?case by simp
qed

lemma padDigits_nonempty: "0 < w \<Longrightarrow> padDigits w n \<noteq> []"
  by (cases w) simp_all

lemma parseDigits_padDigits:
  "0 < w \<Longrightarrow> parseDigits (padDigits w n) = Some (n mod 10 ^ w)"
  by (simp add: parseDigits_def padDigits_value padDigits_nonempty)

lemma parseYear_yearString:
  assumes "- 999999 \<le> y" "y \<le> 999999"
  shows "parseYear (yearString y @ rest) = Some (y, rest)"
proof -
  consider (a) "0 \<le> y" "y \<le> 9999" | (b) "y < 0" | (c) "9999 < y" by linarith
  then show ?thesis
  proof cases
    case a
    have p: "padDigits 4 (nat y) \<noteq> []" by (simp add: padDigits_nonempty)
    then obtain c cs where cs: "padDigits 4 (nat y) = c # cs" by (cases "padDigits 4 (nat y)") auto
    have "isDigit c" using padDigits_digits[of 4 "nat y"] unfolding cs by simp
    then have ns: "c \<noteq> CHR ''+''" "c \<noteq> CHR ''-''" by (auto simp: isDigit_def)
    have v: "parseDigits (padDigits 4 (nat y)) = Some (nat y)"
      using a by (simp add: parseDigits_padDigits)
    have len: "length cs = 3" using length_padDigits[of 4 "nat y"] unfolding cs by simp
    have "parseYear ((c # cs) @ rest) = Some (y, rest)"
      using ns v a len unfolding parseYear_def cs by simp
    then have "parseYear (padDigits 4 (nat y) @ rest) = Some (y, rest)"
      unfolding cs .
    with a show ?thesis by (simp add: yearString_def del: padDigits.simps)
  next
    case b
    have v: "parseDigits (padDigits 6 (nat (- y))) = Some (nat (- y))"
      using b assms by (simp add: parseDigits_padDigits)
    show ?thesis using b v
      by (simp add: yearString_def parseYear_def del: padDigits.simps)
  next
    case c
    have v: "parseDigits (padDigits 6 (nat y)) = Some (nat y)"
      using c assms by (simp add: parseDigits_padDigits)
    show ?thesis using c v
      by (simp add: yearString_def parseYear_def del: padDigits.simps)
  qed
qed

lemma pad2: "padDigits 2 n = [digitChar (n div 10), digitChar n]"
  by (simp add: numeral_2_eq_2)

lemma pad3: "padDigits 3 n = [digitChar (n div 10 div 10), digitChar (n div 10), digitChar n]"
  by (simp add: numeral_3_eq_3)

lemma parse2: "parseDigits [digitChar a, digitChar b] = Some (10 * (a mod 10) + b mod 10)"
  by (simp add: parseDigits_def)

lemma parse3:
  "parseDigits [digitChar a, digitChar b, digitChar c] =
     Some (10 * (10 * (a mod 10) + b mod 10) + c mod 10)"
  by (simp add: parseDigits_def)

lemma two_digits: "n < 100 \<Longrightarrow> 10 * (n div 10 mod 10) + n mod 10 = (n::nat)"
  by simp

lemma three_digits:
  "n < 1000 \<Longrightarrow> 10 * (10 * (n div 10 div 10 mod 10) + n div 10 mod 10) + n mod 10 = (n::nat)"
  by simp

lemma dateParse_format:
  assumes "- 999999 \<le> y" "y \<le> 999999"
    and "1 \<le> mo" "mo \<le> 12" "1 \<le> dd" "dd \<le> 31" "hh \<le> 23" "mi \<le> 59" "ss \<le> 59" "ms \<le> 999"
  shows "dateParse (yearString y @ ''-'' @ padDigits 2 mo @ ''-'' @ padDigits 2 dd @ ''T''
         @ padDigits 2 hh @ '':'' @ padDigits 2 mi @ '':'' @ padDigits 2 ss @ ''.''
         @ padDigits 3 ms @ ''Z'')
       = (let t = daysFromCivil y (int mo) (int dd) * 86400000
                  + int hh * 3600000 + int mi * 60000 + int ss * 1000 + int ms
          in if validTime t then Some t else None)"
proof -
  have f: "10 * (mo div 10 mod 10) + mo mod 10 = mo" "10 * (dd div 10 mod 10) + dd mod 10 = dd"
    "10 * (hh div 10 mod 10) + hh mod 10 = hh" "10 * (mi div 10 mod 10) + mi mod 10 = mi"
    "10 * (ss div 10 mod 10) + ss mod 10 = ss"
    using assms by (simp_all add: two_digits)
  have g: "10 * (10 * (ms div 10 div 10 mod 10) + ms div 10 mod 10) + ms mod 10 = ms"
    using assms by (simp add: three_digits)
  let ?r = "[CHR ''-'', digitChar (mo div 10), digitChar mo, CHR ''-'',
             digitChar (dd div 10), digitChar dd, CHR ''T'',
             digitChar (hh div 10), digitChar hh, CHR '':'',
             digitChar (mi div 10), digitChar mi, CHR '':'',
             digitChar (ss div 10), digitChar ss, CHR ''.'',
             digitChar (ms div 10 div 10), digitChar (ms div 10), digitChar ms, CHR ''Z'']"
  have r: "''-'' @ padDigits 2 mo @ ''-'' @ padDigits 2 dd @ ''T''
         @ padDigits 2 hh @ '':'' @ padDigits 2 mi @ '':'' @ padDigits 2 ss @ ''.''
         @ padDigits 3 ms @ ''Z'' = ?r"
    unfolding pad2 pad3 by simp
  have len: "length ?r = 20" by simp
  have idx: "?r ! 0 = CHR ''-''" "?r ! 3 = CHR ''-''" "?r ! 6 = CHR ''T''" "?r ! 9 = CHR '':''"
    "?r ! 12 = CHR '':''" "?r ! 15 = CHR ''.''" "?r ! 19 = CHR ''Z''"
    by simp_all
  have t: "take 2 (drop 1 ?r) = [digitChar (mo div 10), digitChar mo]"
    "take 2 (drop 4 ?r) = [digitChar (dd div 10), digitChar dd]"
    "take 2 (drop 7 ?r) = [digitChar (hh div 10), digitChar hh]"
    "take 2 (drop 10 ?r) = [digitChar (mi div 10), digitChar mi]"
    "take 2 (drop 13 ?r) = [digitChar (ss div 10), digitChar ss]"
    "take 3 (drop 16 ?r) = [digitChar (ms div 10 div 10), digitChar (ms div 10), digitChar ms]"
    by simp_all
  have p: "parseDigits (take 2 (drop 1 ?r)) = Some mo" "parseDigits (take 2 (drop 4 ?r)) = Some dd"
    "parseDigits (take 2 (drop 7 ?r)) = Some hh" "parseDigits (take 2 (drop 10 ?r)) = Some mi"
    "parseDigits (take 2 (drop 13 ?r)) = Some ss" "parseDigits (take 3 (drop 16 ?r)) = Some ms"
    unfolding t by (simp_all only: parse2 parse3 f g)
  have c: "1 \<le> mo \<and> mo \<le> 12 \<and> 1 \<le> dd \<and> dd \<le> 31 \<and> hh \<le> 23 \<and> mi \<le> 59 \<and> ss \<le> 59"
    using assms by simp
  show ?thesis
    unfolding dateParse_def parseYear_yearString[OF assms(1,2)] r
    by (simp only: option.case prod.case len idx p c if_True simp_thms)
qed

lemma dateParse_toISOString:
  assumes "validTime t"
  shows "dateParse (toISOString t) = Some t"
proof -
  obtain y m d where civ: "civilFromDays (t div 86400000) = (y, m, d)"
    by (cases "civilFromDays (t div 86400000)") auto
  define ms where "ms = t mod 86400000"
  have msb: "0 \<le> ms" "ms < 86400000" by (simp_all add: ms_def)
  from civilFromDays_roundtrip[OF civ]
  have rt: "daysFromCivil y m d = t div 86400000" and mb: "1 \<le> m" "m \<le> 12" "1 \<le> d" "d \<le> 31"
    by simp_all
  have "- 100000000 \<le> t div 86400000" "t div 86400000 \<le> 100000000"
    using assms zdiv_mono1[of "- 8640000000000000" t 86400000]
      zdiv_mono1[of t 8640000000000000 86400000]
    unfolding validTime_def by simp_all
  from civilFromDays_year_bounds[OF civ this]
  have yb: "- 999999 \<le> y" "y \<le> 999999" by simp_all
  from time_of_day[OF msb]
  have hb: "0 \<le> ms div 3600000" "ms div 3600000 \<le> 23"
    and sum: "ms div 3600000 * 3600000 + (ms div 60000 mod 60) * 60000
           + (ms div 1000 mod 60) * 1000 + ms mod 1000 = ms"
    by simp_all
  have iso: "toISOString t = yearString y @ ''-'' @ padDigits 2 (nat m) @ ''-'' @ padDigits 2 (nat d) @ ''T''
         @ padDigits 2 (nat (ms div 3600000)) @ '':''
         @ padDigits 2 (nat (ms div 60000 mod 60)) @ '':''
         @ padDigits 2 (nat (ms div 1000 mod 60)) @ ''.''
         @ padDigits 3 (nat (ms mod 1000)) @ ''Z''"
    unfolding toISOString_def civ Let_def prod.case ms_def ..
  have fb: "1 \<le> nat m" "nat m \<le> 12" "1 \<le> nat d" "nat d \<le> 31" "nat (ms div 3600000) \<le> 23"
    "nat (ms div 60000 mod 60) \<le> 59" "nat (ms div 1000 mod 60) \<le> 59" "nat (ms mod 1000) \<le> 999"
    using mb hb by simp_all
  have conv: "int (nat m) = m" "int (nat d) = d" "int (nat (ms div 3600000)) = ms div 3600000"
    "int (nat (ms div 60000 mod 60)) = ms div 60000 mod 60"
    "int (nat (ms div 1000 mod 60)) = ms div 1000 mod 60"
    "int (nat (ms mod 1000)) = ms mod 1000"
    using mb hb by simp_all
  have tot: "daysFromCivil y m d * 86400000 + ms div 3600000 * 3600000 + ms div 60000 mod 60 * 60000
      + ms div 1000 mod 60 * 1000 + ms mod 1000 = t"
  proof -
    have "daysFromCivil y m d * 86400000 + (ms div 3600000 * 3600000 + (ms div 60000 mod 60) * 60000
           + (ms div 1000 mod 60) * 1000 + ms mod 1000) = t"
      unfolding sum rt by (simp add: ms_def)
    then show ?thesis by (simp only: add.assoc)
  qed
  show ?thesis
    unfolding iso dateParse_format[OF yb fb] conv Let_def tot using assms by simp
qed

lemma toISOString_example: "toISOString 1730550000123 = ''2024-11-02T12:20:00.123Z''"
  by code_simp

lemma dateParse_example: "dateParse ''2024-11-02T12:20:00.123Z'' = Some 1730550000123"
  by code_simp

subsection \<open>Persistence: one user\<close>

lemma map_of_optField: "map_of (optField k' v) k = (if k = k' then v else None)"
  by (cases v) (simp_all add: optField_def)

lemma optStringField_JString:
  "map_of fs k = map_option JString v \<Longrightarrow> optStringField fs k = Some v"
  by (cases v) (simp_all add: optStringField_def)

lemma stringField_JString: "map_of fs k = Some (JString s) \<Longrightarrow> stringField fs k = Some s"
  by (simp add: stringField_def)

lemma userTypeOfString_userTypeString: "userTypeOfString (userTypeString t) = Some t"
  by (cases t) (simp_all add: userTypeOfString_def userTypeString_def)

lemma userFields_lookup:
  "map_of (userFields u) ''id'' = Some (JString (id' u))"
  "map_of (userFields u) ''name'' = Some (JString (name u))"
  "map_of (userFields u) ''email'' = map_option JString (email u)"
  "map_of (userFields u) ''phone'' = Some (JString (phone u))"
  "map_of (userFields u) ''userType'' = Some (JString (userTypeString (userType u)))"
  "map_of (userFields u) ''specialty'' = map_option JString (specialty u)"
  "map_of (userFields u) ''village'' = map_option JString (village u)"
  "map_of (userFields u) ''organization'' = map_option JString (organization u)"
  "map_of (userFields u) ''isVerified'' = Some (JBool (isVerified u))"
  "map_of (userFields u) ''createdAt'' = Some (JString (toISOString (createdAt u)))"
  "map_of (userFields u) ''lastLogin'' = Some (JString (toISOString (lastLogin u)))"
  "map_of (userFields u) ''abhaProfile'' = abhaProfile u"
  "map_of (userFields u) ''profilePhoto'' = map_option JString (profilePhoto u)"
  unfolding userFields_def
  by (simp_all add: map_of_append map_add_def map_of_optField split: option.splits)

lemma userFromJSON_userToJSON:
  assumes "validTime (createdAt u)" "validTime (lastLogin u)"
  shows "userFromJSON (userToJSON u) = Some u"
proof -
  have j: "userToJSON u = JObject (userFields u)"
    by (simp add: userToJSON_def)
  note l = userFields_lookup[of u]
  have s: "stringField (userFields u) ''id'' = Some (id' u)"
    "stringField (userFields u) ''name'' = Some (name u)"
    "stringField (userFields u) ''phone'' = Some (phone u)"
    "Option.bind (stringField (userFields u) ''userType'') userTypeOfString = Some (userType u)"
    by (simp_all add: stringField_JString[OF l(1)] stringField_JString[OF l(2)]
        stringField_JString[OF l(4)] stringField_JString[OF l(5)] userTypeOfString_userTypeString)
  have opt: "optStringField (userFields u) ''email'' = Some (email u)"
    "optStringField (userFields u) ''profilePhoto'' = Some (profilePhoto u)"
    "optStringField (userFields u) ''specialty'' = Some (specialty u)"
    "optStringField (userFields u) ''village'' = Some (village u)"
    "optStringField (userFields u) ''organization'' = Some (organization u)"
    by (rule optStringField_JString, rule l)+
  have d: "newDate (map_of (userFields u) ''createdAt'') = Some (createdAt u)"
    "newDate (map_of (userFields u) ''lastLogin'') = Some (lastLogin u)"
    using assms by (simp_all add: l newDate_def dateParse_toISOString)
  show ?thesis
    unfolding j userFromJSON_def
    using assms
    by (simp only: json.case s opt l prod.case option.case)
       (simp add: newDate_def dateParse_toISOString)
qed

subsection \<open>Persistence: the directory\<close>

lemma Map_set_fresh: "k \<notin> fst ` set es \<Longrightarrow> Map_set k v es = es @ [(k, v)]"
  by (induction es) auto

lemma keys_Map_set: "fst ` set (Map_set k v es) = insert k (fst ` set es)"
  by (induction es) auto

lemma distinct_Map_set: "distinct (map fst es) \<Longrightarrow> distinct (map fst (Map_set k v es))"
  by (induction es) (auto simp: keys_Map_set)

lemma setAll_distinct:
  "distinct (map fst es) \<Longrightarrow> fst ` set es \<inter> fst ` set acc = {} \<Longrightarrow> setAll es acc = acc @ es"
proof (induction es arbitrary: acc)
  case Nil
  show ?case by simp
next
  case (Cons e es)
  have f: "fst e \<notin> fst ` set acc" using Cons.prems(2) by auto
  have "setAll es (acc @ [(fst e, snd e)]) = (acc @ [(fst e, snd e)]) @ es"
    using Cons.prems by (intro Cons.IH) auto
  then show ?case by (simp add: Map_set_fresh[OF f])
qed

lemma distinct_setAll: "distinct (map fst acc) \<Longrightarrow> distinct (map fst (setAll es acc))"
  by (induction es arbitrary: acc) (simp_all add: distinct_Map_set)

lemma set_setAll: "set (setAll es acc) \<subseteq> set es \<union> set acc"
proof (induction es arbitrary: acc)
  case Nil
  show ?case by simp
next
  case (Cons e es)
  have "set (setAll es (Map_set (fst e) (snd e) acc)) \<subseteq> set es \<union> set (Map_set (fst e) (snd e) acc)"
    by (rule Cons.IH)
  also have "\<dots> \<subseteq> set es \<union> insert (fst e, snd e) (set acc)"
    using set_Map_set[of "fst e" "snd e" acc] by blast
  finally show ?case by auto
qed

lemma set_propertyOrder [simp]: "set (propertyOrder es) = set es"
  by (auto simp: propertyOrder_def)

lemma length_propertyOrder [simp]: "length (propertyOrder es) = length es"
  by (simp add: propertyOrder_def sum_length_filter_compl)

lemma distinct_propertyOrder:
  assumes "distinct (map fst es)"
  shows "distinct (map fst (propertyOrder es))"
proof -
  have "card (fst ` set (propertyOrder es)) = length (propertyOrder es)"
    using assms distinct_card[of "map fst es"] by simp
  then show ?thesis by (simp add: card_distinct)
qed

lemma propertyOrder_idem: "propertyOrder (propertyOrder es) = propertyOrder es"
proof -
  let ?a = "sort_key indexKey (filter isIndexKey es)"
  let ?b = "filter (\<lambda>e. \<not> isIndexKey e) es"
  have 1: "filter isIndexKey (?a @ ?b) = ?a"
    by (simp add: filter_sort)
  have 2: "filter (\<lambda>e. \<not> isIndexKey e) (?a @ ?b) = ?b"
    by (simp add: filter_sort)
  have 3: "sort_key indexKey ?a = ?a"
    by (rule sort_key_id_if_sorted) (rule sorted_sort_key)
  have "propertyOrder (?a @ ?b)
      = sort_key indexKey (filter isIndexKey (?a @ ?b)) @ filter (\<lambda>e. \<not> isIndexKey e) (?a @ ?b)"
    by (simp only: propertyOrder_def)
  also have "\<dots> = ?a @ ?b" by (simp only: 1 2 3)
  finally show ?thesis by (simp only: propertyOrder_def)
qed

lemma propertyOrder_no_index: "\<forall>e \<in> set es. \<not> isIndexKey e \<Longrightarrow> propertyOrder es = es"
  by (simp add: propertyOrder_def filter_id_conv filter_empty_conv)

lemma fromEntries_distinct: "distinct (map fst (fromEntries es))"
  unfolding fromEntries_def by (rule distinct_propertyOrder) (simp add: distinct_setAll)

lemma fromEntries_of_distinct: "distinct (map fst es) \<Longrightarrow> fromEntries es = propertyOrder es"
  by (simp add: fromEntries_def setAll_distinct)

lemma fromEntries_idem: "fromEntries (fromEntries es) = fromEntries es"
  using fromEntries_of_distinct[OF fromEntries_distinct, of es]
  by (simp add: fromEntries_def propertyOrder_idem)

lemma set_fromEntries: "set (fromEntries es) \<subseteq> set es"
  using set_setAll[of es "[]"] by (simp add: fromEntries_def)

lemma fromEntries_same_map:
  assumes "distinct (map fst us)"
  shows "length (fromEntries us) = length us \<and> set (fromEntries us) = set us
       \<and> map_of (fromEntries us) = map_of us"
proof -
  have e: "fromEntries us = propertyOrder us" by (rule fromEntries_of_distinct[OF assms])
  have "map_of (propertyOrder us) = map_of us"
    using map_of_inject_set[OF distinct_propertyOrder[OF assms] assms] by simp
  then show ?thesis by (simp add: e)
qed

lemma fromEntries_no_index:
  assumes "distinct (map fst us)" "\<forall>e \<in> set us. arrayIndex (fst e) = None"
  shows "fromEntries us = us"
  using assms by (simp add: fromEntries_of_distinct propertyOrder_no_index isIndexKey_def)

text \<open>Changing the values leaves the order of the properties as it is.\<close>

lemma Map_set_map_values:
  "Map_set k (f v) (map (\<lambda>e. (fst e, f (snd e))) es) = map (\<lambda>e. (fst e, f (snd e))) (Map_set k v es)"
  by (induction es) auto

lemma setAll_map_values:
  "setAll (map (\<lambda>e. (fst e, f (snd e))) es) (map (\<lambda>e. (fst e, f (snd e))) acc)
     = map (\<lambda>e. (fst e, f (snd e))) (setAll es acc)"
  by (induction es arbitrary: acc) (simp_all add: Map_set_map_values)

lemma insort_map_values:
  "insort_key indexKey (fst x, f (snd x)) (map (\<lambda>e. (fst e, f (snd e))) ys)
     = map (\<lambda>e. (fst e, f (snd e))) (insort_key indexKey x ys)"
  by (induction ys) (auto simp: indexKey_def)

lemma sort_map_values:
  "sort_key indexKey (map (\<lambda>e. (fst e, f (snd e))) es)
     = map (\<lambda>e. (fst e, f (snd e))) (sort_key indexKey es)"
  by (induction es) (simp_all add: insort_map_values)

lemma propertyOrder_map_values:
  "propertyOrder (map (\<lambda>e. (fst e, f (snd e))) es) = map (\<lambda>e. (fst e, f (snd e))) (propertyOrder es)"
proof -
  have "filter isIndexKey (map (\<lambda>e. (fst e, f (snd e))) es)
      = map (\<lambda>e. (fst e, f (snd e))) (filter isIndexKey es)"
    by (induction es) (simp_all add: isIndexKey_def)
  moreover have "filter (\<lambda>e. \<not> isIndexKey e) (map (\<lambda>e. (fst e, f (snd e))) es)
      = map (\<lambda>e. (fst e, f (snd e))) (filter (\<lambda>e. \<not> isIndexKey e) es)"
    by (induction es) (simp_all add: isIndexKey_def)
  ultimately show ?thesis by (simp add: propertyOrder_def sort_map_values)
qed

lemma fromEntries_map_values:
  "fromEntries (map (\<lambda>e. (fst e, f (snd e))) es) = map (\<lambda>e. (fst e, f (snd e))) (fromEntries es)"
  using setAll_map_values[of f es "[]"] by (simp add: fromEntries_def propertyOrder_map_values)

lemma loadEntries_saved:
  "datesValid es \<Longrightarrow>
   loadEntries (map (\<lambda>e. (fst e, userToJSON (snd e))) es) acc = Some (setAll es acc)"
  by (induction es arbitrary: acc) (simp_all add: datesValid_def userFromJSON_userToJSON)

lemma load_save:
  assumes "datesValid us"
  shows "loadUsersFromStorage (Some (saveUsersToStorage us)) = Some (fromEntries us)"
proof -
  let ?g = "\<lambda>e. (fst e, userToJSON (snd e))"
  have v: "datesValid (fromEntries us)"
    using assms set_fromEntries[of us] unfolding datesValid_def by blast
  have "loadUsersFromStorage (Some (saveUsersToStorage us))
      = loadEntries (fromEntries (map ?g (fromEntries us))) []"
    by (simp add: loadUsersFromStorage_def saveUsersToStorage_def)
  also have "\<dots> = loadEntries (map ?g (fromEntries us)) []"
    by (simp only: fromEntries_map_values fromEntries_idem)
  also have "\<dots> = Some (setAll (fromEntries us) [])"
    by (rule loadEntries_saved[OF v])
  also have "setAll (fromEntries us) [] = fromEntries us"
    using setAll_distinct[OF fromEntries_distinct, of us "[]"] by simp
  finally show ?thesis .
qed

text \<open>
  Claim C9. Saving a directory of \<open>N\<close> users and loading it again gives \<open>N\<close> users, under
  the same keys and equal to the saved ones field by field: ids, roles and both dates, the
  dates as time values in milliseconds. The loaded map lists the keys that are array
  indices first; when the directory has none, as with the ids that \<open>createUser\<close> makes,
  the loaded list is the saved one.
\<close>

theorem persistence_round_trip:
  assumes "distinct (map fst us)" and "datesValid us"
  shows "\<exists>us'. loadUsersFromStorage (Some (saveUsersToStorage us)) = Some us'
           \<and> length us' = length us \<and> set us' = set us \<and> map_of us' = map_of us
           \<and> ((\<forall>e \<in> set us. arrayIndex (fst e) = None) \<longrightarrow> us' = us)"
  using load_save[OF assms(2)] fromEntries_same_map[OF assms(1)] fromEntries_no_index[OF assms(1)]
  by simp

theorem persistence_round_trip_witness:
  "distinct (map fst demoUsers) \<and> datesValid demoUsers
 \<and> loadUsersFromStorage (Some (saveUsersToStorage demoUsers)) = Some demoUsers"
proof -
  have d: "distinct (map fst demoUsers)" by (simp add: demoUsers_def)
  have v: "datesValid demoUsers" by (simp add: demoUsers_def datesValid_def validTime_def)
  have n: "\<forall>e \<in> set demoUsers. arrayIndex (fst e) = None"
    by (simp add: demoUsers_def arrayIndex_def parseDigits_def isDigit_def)
  from persistence_round_trip[OF d v] n d v show ?thesis by auto
qed

end
